theory Spec2Isabelle
  imports Main "HOL-Library.AList"
begin

section \<open>Python strings\<close>

text \<open>
  A Python \<open>str\<close> is modelled as a \<^typ>\<open>string\<close>, one \<^typ>\<open>char\<close> per character of
  the text. The operations of \<open>str\<close> that the program uses are defined below from their
  documented behaviour: \<open>sep.join(xs)\<close>, \<open>s.startswith(p)\<close>, \<open>sub in s\<close>,
  \<open>s.strip()\<close>, \<open>s[:n]\<close> (which is \<^const>\<open>take\<close>) and truthiness.

  The case mappings \<open>s.lower()\<close> and \<open>s.upper()\<close> follow the Unicode tables, are not
  character-wise (\<open>'\<ss>'.upper()\<close> is \<open>'SS'\<close>) and may leave any fixed alphabet. They are
  therefore parameters of the model, collected in a record; every function that calls one
  of them takes the record as its first argument.
\<close>

record str_case =
  lower :: "string \<Rightarrow> string"
  upper :: "string \<Rightarrow> string"

text \<open>The line feed, \<open>"\n"\<close> in the source.\<close>

definition nl :: string where
  "nl = [CHR 0x0A]"

text \<open>\<open>sep.join(xs)\<close>\<close>

fun join :: "string \<Rightarrow> string list \<Rightarrow> string" where
  "join sep [] = []"
| "join sep [x] = x"
| "join sep (x # y # ys) = x @ sep @ join sep (y # ys)"

text \<open>\<open>s.startswith(p)\<close>\<close>

definition startswith :: "string \<Rightarrow> string \<Rightarrow> bool" where
  "startswith s p = (take (length p) s = p)"

text \<open>\<open>sub in s\<close>: \<open>sub\<close> occurs in \<open>s\<close> as a contiguous substring.\<close>

fun contains :: "string \<Rightarrow> string \<Rightarrow> bool" where
  "contains sub [] = (sub = [])"
| "contains sub (c # s) = (startswith (c # s) sub \<or> contains sub s)"

text \<open>
  \<open>c.isspace()\<close> on the characters U+0000 to U+00FF: the ASCII white space
  \<open>\t \n \x0b \x0c \r\<close> and the blank, the separators U+001C to U+001F, NEL (U+0085) and
  the no-break space (U+00A0).
\<close>

definition isspace :: "char \<Rightarrow> bool" where
  "isspace c = (c \<in> set [CHR 0x09, CHR 0x0A, CHR 0x0B, CHR 0x0C, CHR 0x0D,
                           CHR 0x1C, CHR 0x1D, CHR 0x1E, CHR 0x1F, CHR 0x20,
                           CHR 0x85, CHR 0xA0])"

text \<open>\<open>s.strip()\<close>\<close>

definition strip :: "string \<Rightarrow> string" where
  "strip s = rev (dropWhile isspace (rev (dropWhile isspace s)))"

text \<open>
  An instance of the case mappings, used to evaluate the model on concrete inputs: Python's
  \<open>str.lower\<close> and \<open>str.upper\<close> on texts made of ASCII characters and of U+00DF
  (LATIN SMALL LETTER SHARP S, \<open>CHR 0xDF\<close>), whose lower case is itself and whose upper
  case is the two letters \<open>SS\<close>.
\<close>

definition lower_char :: "char \<Rightarrow> char" where
  "lower_char c =
     (case map_of (zip ''ABCDEFGHIJKLMNOPQRSTUVWXYZ'' ''abcdefghijklmnopqrstuvwxyz'') c of
        Some d \<Rightarrow> d
      | None \<Rightarrow> c)"

definition upper_char :: "char \<Rightarrow> string" where
  "upper_char c =
     (if c = CHR 0xDF then ''SS''
      else case map_of (zip ''abcdefghijklmnopqrstuvwxyz'' ''ABCDEFGHIJKLMNOPQRSTUVWXYZ'') c of
             Some d \<Rightarrow> [d]
           | None \<Rightarrow> [c])"

definition py_case :: str_case where
  "py_case = \<lparr> lower = map lower_char, upper = (\<lambda>s. concat (map upper_char s)) \<rparr>"

section \<open>The lore manager (\<open>lore.py\<close>)\<close>

text \<open>
  An exception that a handler of the program can meet, carried by the text that \<open>str(e)\<close>
  gives: an instance of \<open>json.JSONDecodeError\<close>, or an instance of \<open>Exception\<close> of any
  other class (\<open>RecursionError\<close>, \<open>ValueError\<close>, \<open>AttributeError\<close>, \<open>MarkupError\<close>, ...).
\<close>

datatype exn = JSONDecodeError string | Exception string

fun str_exn :: "exn \<Rightarrow> string" where
  "str_exn (JSONDecodeError detail) = detail"
| "str_exn (Exception detail) = detail"

text \<open>
  \<open>lore_cache\<close> is a \<open>dict\<close> from topic to text. A \<open>dict\<close> iterates in insertion order and
  \<open>d[k] = v\<close> on a key already present keeps its position, so it is an association list
  with distinct keys, written by \<^const>\<open>AList.update\<close> and read by \<^const>\<open>map_of\<close>.
\<close>

type_synonym lore_cache = "(string \<times> string) list"

text \<open>
  \<open>_load_lore\<close>: the directory is given by what \<open>glob("*.md")\<close> enumerates, each file by
  its \<open>stem\<close> and by the result of opening and reading it; \<open>None\<close> is the directory that
  does not exist. A file that cannot be read is reported and skipped.
\<close>

fun load_files :: "(string \<times> (exn + string)) list \<Rightarrow> lore_cache \<Rightarrow> lore_cache" where
  "load_files [] lore_cache = lore_cache"
| "load_files ((stem, Inr text) # files) lore_cache =
     load_files files (AList.update stem text lore_cache)"
| "load_files ((stem, Inl e) # files) lore_cache = load_files files lore_cache"

definition load_lore ::
  "(string \<times> (exn + string)) list option \<Rightarrow> lore_cache \<Rightarrow> lore_cache" where
  "load_lore lore_dir lore_cache =
     (case lore_dir of None \<Rightarrow> lore_cache | Some files \<Rightarrow> load_files files lore_cache)"

text \<open>\<open>LoreManager(lore_dir)\<close>: the cache starts empty and is loaded once.\<close>

definition LoreManager :: "(string \<times> (exn + string)) list option \<Rightarrow> lore_cache" where
  "LoreManager lore_dir = load_lore lore_dir []"

text \<open>\<open>refresh_lore\<close>\<close>

definition refresh_lore ::
  "(string \<times> (exn + string)) list option \<Rightarrow> lore_cache \<Rightarrow> lore_cache" where
  "refresh_lore lore_dir lore_cache = load_lore lore_dir []"

text \<open>\<open>get_lore\<close>\<close>

definition get_lore :: "str_case \<Rightarrow> lore_cache \<Rightarrow> string \<Rightarrow> string option" where
  "get_lore cs lore_cache topic = map_of lore_cache (lower cs topic)"

text \<open>\<open>get_all_lore_topics\<close>\<close>

definition get_all_lore_topics :: "lore_cache \<Rightarrow> string list" where
  "get_all_lore_topics lore_cache = map fst lore_cache"

text \<open>
  \<open>search_lore\<close>: the loop over \<open>lore_cache.items()\<close>, with \<open>results\<close> as accumulator and
  \<open>query\<close> already lower-cased.
\<close>

definition no_lore :: string where
  "no_lore = ''No specific lore found for this query.''"

fun search_items :: "str_case \<Rightarrow> string \<Rightarrow> lore_cache \<Rightarrow> string list \<Rightarrow> string list" where
  "search_items cs query [] results = results"
| "search_items cs query ((topic, content) # items) results =
     (if contains query topic then
        search_items cs query items
          (results @ [''--- '' @ upper cs topic @ '' ---'' @ nl @ content @ nl])
      else if contains query (lower cs content) then
        search_items cs query items
          (results @ [''--- '' @ upper cs topic @ '' (Relevant Content) ---'' @ nl @ content @ nl])
      else search_items cs query items results)"

definition search_lore :: "str_case \<Rightarrow> lore_cache \<Rightarrow> string \<Rightarrow> string" where
  "search_lore cs lore_cache query =
     (let results = search_items cs (lower cs query) lore_cache []
      in if results = [] then no_lore else join nl results)"

section \<open>The generation gateway (\<open>ai.py\<close>)\<close>

text \<open>
  The three provider libraries are outside the program. What the gateway sends to them is
  a \<open>request\<close>; what they answer is given by the functions of the record \<open>remote\<close>, each
  of which also sees the requests sent before, so that the same request may be answered
  differently the second time. An answer is an exception (of the call, or of reading the
  response) or what the response carries: for OpenAI the \<open>message.content\<close> of each of its
  \<open>choices\<close>, which is a \<open>str\<close> or \<open>None\<close>; for Anthropic the \<open>text\<close> of each block of
  its \<open>content\<close>; for Gemini its \<open>text\<close>.
\<close>

datatype message = Message (role: string) (content: string)

datatype request =
    ChatCompletionsCreate string "message list"
  | MessagesCreate string nat string "message list"
  | GenerateContent string "string option" string

record remote =
  chat_completions_create ::
    "request list \<Rightarrow> string \<Rightarrow> message list \<Rightarrow> exn + string option list"
  messages_create ::
    "request list \<Rightarrow> string \<Rightarrow> nat \<Rightarrow> string \<Rightarrow> message list \<Rightarrow> exn + string list"
  generate_content :: "request list \<Rightarrow> string \<Rightarrow> string option \<Rightarrow> string \<Rightarrow> exn + string"

text \<open>\<open>os.getenv\<close>\<close>

type_synonym environ = "string \<Rightarrow> string option"

text \<open>Truthiness of an optional string: neither \<open>None\<close> nor empty.\<close>

fun truthy :: "string option \<Rightarrow> bool" where
  "truthy None = False"
| "truthy (Some s) = (s \<noteq> [])"

text \<open>
  The gateway object: each client is \<open>None\<close> or the client built from its key.
  \<open>_setup_clients\<close> reads the keys (for Gemini it only configures the library).
\<close>

record AIGateway =
  openai_client :: "string option"
  anthropic_client :: "string option"

definition setup_clients :: "environ \<Rightarrow> AIGateway" where
  "setup_clients getenv =
     \<lparr> openai_client =
         (let openai_key = getenv ''OPENAI_API_KEY''
          in if truthy openai_key then openai_key else None),
       anthropic_client =
         (let anthropic_key = getenv ''ANTHROPIC_API_KEY''
          in if truthy anthropic_key then anthropic_key else None) \<rparr>"

text \<open>\<open>xs[0]\<close> on a list\<close>

definition first :: "'a list \<Rightarrow> exn + 'a" where
  "first xs = (case xs of [] \<Rightarrow> Inl (Exception ''list index out of range'') | x # _ \<Rightarrow> Inr x)"

text \<open>
  The three private generators. Each returns what its \<open>return\<close> statement gives, a \<open>str\<close>
  or (for OpenAI, whose \<open>message.content\<close> is returned as it is) \<open>None\<close>, or the exception
  that leaves it, together with the requests sent so far.
\<close>

definition generate_openai ::
  "remote \<Rightarrow> AIGateway \<Rightarrow> request list \<Rightarrow> string \<Rightarrow> string \<Rightarrow> string
     \<Rightarrow> (exn + string option) \<times> request list" where
  "generate_openai rm gw sent prompt system_instruction model =
     (case openai_client gw of
        None \<Rightarrow> (Inr (Some ''Error: OpenAI API key not found.''), sent)
      | Some client \<Rightarrow>
          (let messages =
                 (if system_instruction \<noteq> [] then [Message ''system'' system_instruction] else [])
                 @ [Message ''user'' prompt]
           in (case chat_completions_create rm sent model messages of
                 Inl e \<Rightarrow> Inl e
               | Inr choices \<Rightarrow> first choices,
               sent @ [ChatCompletionsCreate model messages])))"

definition generate_anthropic ::
  "remote \<Rightarrow> AIGateway \<Rightarrow> request list \<Rightarrow> string \<Rightarrow> string \<Rightarrow> string
     \<Rightarrow> (exn + string option) \<times> request list" where
  "generate_anthropic rm gw sent prompt system_instruction model =
     (case anthropic_client gw of
        None \<Rightarrow> (Inr (Some ''Error: Anthropic API key not found.''), sent)
      | Some client \<Rightarrow>
          (case messages_create rm sent model 1024 system_instruction [Message ''user'' prompt] of
             Inl e \<Rightarrow> Inl e
           | Inr blocks \<Rightarrow> (case first blocks of Inl e \<Rightarrow> Inl e | Inr t \<Rightarrow> Inr (Some t)),
           sent @ [MessagesCreate model 1024 system_instruction [Message ''user'' prompt]]))"

definition generate_gemini ::
  "remote \<Rightarrow> environ \<Rightarrow> request list \<Rightarrow> string \<Rightarrow> string \<Rightarrow> string
     \<Rightarrow> (exn + string option) \<times> request list" where
  "generate_gemini rm getenv sent prompt system_instruction model =
     (if \<not> truthy (getenv ''GEMINI_API_KEY'')
      then (Inr (Some ''Error: Gemini API key not found.''), sent)
      else
        (let model_instance = (if system_instruction \<noteq> [] then Some system_instruction else None)
         in (case generate_content rm sent model model_instance prompt of
               Inl e \<Rightarrow> Inl e
             | Inr t \<Rightarrow> Inr (Some t),
             sent @ [GenerateContent model model_instance prompt])))"

text \<open>
  \<open>generate_response\<close>. The local \<open>full_prompt\<close> is computed first, as in the source, and
  is used by no branch. \<open>except Exception as e\<close> turns every exception of the \<open>try\<close> into
  a string; a value that a generator returns is returned as it is, \<open>None\<close> included.
\<close>

definition full_prompt :: "string \<Rightarrow> string \<Rightarrow> string" where
  "full_prompt system_instruction prompt =
     (if system_instruction \<noteq> [] then system_instruction @ nl @ nl @ prompt else prompt)"

definition dispatch ::
  "remote \<Rightarrow> environ \<Rightarrow> AIGateway \<Rightarrow> request list \<Rightarrow> string \<Rightarrow> string \<Rightarrow> string \<Rightarrow> string
     \<Rightarrow> (exn + string option) \<times> request list" where
  "dispatch rm getenv gw sent prompt system_instruction provider model =
     (if provider = ''openai'' then generate_openai rm gw sent prompt system_instruction model
      else if provider = ''anthropic'' then generate_anthropic rm gw sent prompt system_instruction model
      else if provider = ''gemini'' then generate_gemini rm getenv sent prompt system_instruction model
      else (Inr (Some (''Error: Unknown provider '' @ [CHR 0x27] @ provider @ [CHR 0x27])), sent))"

definition generate_response ::
  "remote \<Rightarrow> environ \<Rightarrow> AIGateway \<Rightarrow> request list \<Rightarrow> string \<Rightarrow> string \<Rightarrow> string \<Rightarrow> string
     \<Rightarrow> string option \<times> request list" where
  "generate_response rm getenv gw sent prompt system_instruction provider model =
     (let fp = full_prompt system_instruction prompt
      in case dispatch rm getenv gw sent prompt system_instruction provider model of
           (Inr returned, sent') \<Rightarrow> (returned, sent')
         | (Inl e, sent') \<Rightarrow>
             (Some (''Error generating response with '' @ provider @ '': '' @ str_exn e), sent'))"

section \<open>The turn loop (\<open>cli.py\<close>, \<open>chat_loop\<close>)\<close>

subsection \<open>Values and collaborators\<close>

text \<open>
  What \<open>json.loads\<close> returns: \<open>None\<close>, a \<open>bool\<close>, a number (kept as its literal), a
  \<open>str\<close>, a \<open>list\<close> or a \<open>dict\<close> (its items, the keys distinct). The parser itself is
  the library's and is a parameter: on a text it returns the value or raises,
  \<open>JSONDecodeError\<close> on a text that is not a JSON document, and other exceptions too
  (\<open>RecursionError\<close> on deep nesting, \<open>ValueError\<close> on an integer of more than 4300
  digits).
\<close>

datatype json =
    JNull
  | JBool bool
  | JNumber string
  | JString string
  | JArray "json list"
  | JObject "(string \<times> json) list"

text \<open>\<open>d.get(key, default)\<close> on the \<open>dict\<close> of a JSON object\<close>

definition dict_get :: "(string \<times> json) list \<Rightarrow> string \<Rightarrow> json \<Rightarrow> json" where
  "dict_get d key dflt = (case map_of d key of None \<Rightarrow> dflt | Some v \<Rightarrow> v)"

text \<open>
  \<open>str(v)\<close> in an f-string, for a value parsed from JSON: a \<open>str\<close> is itself; the
  rendering of the other values is a parameter.
\<close>

definition str_of :: "(json \<Rightarrow> string) \<Rightarrow> json \<Rightarrow> string" where
  "str_of repr v = (case v of JString s \<Rightarrow> s | _ \<Rightarrow> repr v)"

text \<open>
  A tool descriptor as \<open>get_all_tools\<close> yields it: a \<open>dict\<close> with the keys \<open>name\<close> and
  \<open>server_name\<close>, both strings, and \<open>description\<close>, which the loop reads with
  \<open>t.get('description', '')\<close>: the key may be absent, or present with the value \<open>None\<close>
  or with a string.
\<close>

datatype description = Absent | IsNone | Described string

record tool =
  name :: string
  description :: description
  server_name :: string

text \<open>
  Everything the loop acts on: the requests sent to the providers, the calls of
  \<open>generate_response\<close> (prompt, system instruction, provider, model), the tool
  invocations (server, tool name, arguments), the console, and the events of the
  story database (story, description), oldest first.
\<close>

datatype printed = Print string | Markdown string

record world =
  sent :: "request list"
  generations :: "(string \<times> string \<times> string \<times> string) list"
  invoked :: "(string \<times> json \<times> json) list"
  console :: "printed list"
  events :: "(int \<times> string) list"

text \<open>
  The collaborators outside the program:
  \<^item> the providers and the process environment;
  \<^item> the JSON parser;
  \<^item> the rendering of JSON values;
  \<^item> \<open>MCPClientManager.call_tool\<close>, which sees the invocations made before and returns
    the \<open>str\<close> of its result (the loop uses the result in f-strings only) or raises;
  \<^item> the console markup of \<open>rich\<close>: \<open>console.print(s)\<close> for a \<open>str\<close> parses the markup in
    \<open>s\<close> and raises \<open>MarkupError\<close> on a closing tag that closes nothing; \<open>markup_error s\<close>
    is that exception, or \<open>None\<close> when \<open>s\<close> is printed;
  \<^item> the exception that \<open>Markdown(None)\<close> raises (the Markdown parser refuses an input
    that is not a string). \<open>console.print(Markdown(s))\<close> for a string \<open>s\<close> renders
    Markdown, parses no console markup and prints.
\<close>

record collaborators =
  providers :: remote
  getenv :: environ
  json_loads :: "string \<Rightarrow> exn + json"
  repr :: "json \<Rightarrow> string"
  call_tool :: "(string \<times> json \<times> json) list \<Rightarrow> string \<Rightarrow> json \<Rightarrow> json \<Rightarrow> exn + string"
  markup_error :: "string \<Rightarrow> exn option"
  markdown_error :: exn

text \<open>
  Modelled from the spec: the storage collaborator \<open>DatabaseManager\<close>, whose module is
  not among the sources. \<open>log_event\<close> appends one event to the story;
  \<open>get_recent_events\<close> gives the descriptions of the last \<open>limit\<close> events of the story,
  in chronological order.
\<close>

definition log_event :: "int \<Rightarrow> string \<Rightarrow> world \<Rightarrow> world" where
  "log_event story_id descr w = w\<lparr>events := events w @ [(story_id, descr)]\<rparr>"

definition get_recent_events :: "world \<Rightarrow> int \<Rightarrow> nat \<Rightarrow> string list" where
  "get_recent_events w story_id limit =
     (let ds = map snd (filter (\<lambda>e. fst e = story_id) (events w))
      in drop (length ds - limit) ds)"

text \<open>What \<open>chat_loop\<close> holds when the loop starts.\<close>

record session =
  text_case :: str_case
  lore :: lore_cache
  ai :: AIGateway
  tools :: "tool list"
  provider :: string
  model :: string
  story_id :: int
  story_summary :: string

subsection \<open>One iteration\<close>

text \<open>
  \<open>console.print\<close>: of a renderable that is printed, and of a \<open>str\<close>, whose markup
  is parsed first.
\<close>

definition console_print :: "printed \<Rightarrow> world \<Rightarrow> world" where
  "console_print out w = w\<lparr>console := console w @ [out]\<rparr>"

definition console_print_str :: "collaborators \<Rightarrow> string \<Rightarrow> world \<Rightarrow> exn + world" where
  "console_print_str ex s w =
     (case markup_error ex s of
        Some e \<Rightarrow> Inl e
      | None \<Rightarrow> Inr (console_print (Print s) w))"

text \<open>
  \<open>ai.generate_response(...)\<close> as the loop calls it: the call is recorded, the requests
  it sends are added to those sent.
\<close>

definition ai_generate_response ::
  "collaborators \<Rightarrow> session \<Rightarrow> string \<Rightarrow> string \<Rightarrow> world \<Rightarrow> string option \<times> world" where
  "ai_generate_response ex ss prompt system_instruction w =
     (case generate_response (providers ex) (getenv ex) (ai ss) (sent w)
             prompt system_instruction (provider ss) (model ss) of
        (returned, sent') \<Rightarrow>
          (returned, w\<lparr>sent := sent',
                       generations := generations w
                         @ [(prompt, system_instruction, provider ss, model ss)]\<rparr>))"

text \<open>The tool instruction and the system instruction, with the source's line layout.\<close>

definition tool_instruction :: "tool list \<Rightarrow> string" where
  "tool_instruction ts =
     (if ts \<noteq> [] then
        ''You have access to the following external tools. If you need to use one, output a JSON block like {\"tool\": \"tool_name\", \"args\": {...}}.'' @ nl
        @ ''Available Tools:'' @ nl
        @ join nl (map (\<lambda>t. ''- '' @ name t @ '': ''
                               @ (case description t of
                                    Absent \<Rightarrow> []
                                  | IsNone \<Rightarrow> ''None''
                                  | Described d \<Rightarrow> d)) ts)
      else [])"

definition pad :: string where
  "pad = ''            ''"

definition system_instruction ::
  "string \<Rightarrow> string \<Rightarrow> string \<Rightarrow> string \<Rightarrow> string" where
  "system_instruction summary events_text relevant_lore tool_instr =
     nl @ pad @ ''You are an AI Storyteller/Dungeon Master.'' @ nl
     @ pad @ nl
     @ pad @ ''Current Story Summary:'' @ nl
     @ pad @ summary @ nl
     @ pad @ nl
     @ pad @ ''Recent Events:'' @ nl
     @ pad @ events_text @ nl
     @ pad @ nl
     @ pad @ ''Relevant Lore:'' @ nl
     @ pad @ relevant_lore @ nl
     @ pad @ nl
     @ pad @ tool_instr @ nl
     @ pad @ nl
     @ pad @ ''Your goal is to guide the player through the story.'' @ nl
     @ pad"

definition build_context :: "session \<Rightarrow> world \<Rightarrow> string \<Rightarrow> string" where
  "build_context ss w user_input =
     (let relevant_lore = search_lore (text_case ss) (lore ss) user_input;
          recent_events = get_recent_events w (story_id ss) 5;
          events_text = join nl (map (\<lambda>e. ''- '' @ e) recent_events)
      in system_instruction (story_summary ss) events_text relevant_lore
           (tool_instruction (tools ss)))"

text \<open>The test of line 187: the response looks like a tool call.\<close>

definition looks_like_tool_call :: "string \<Rightarrow> bool" where
  "looks_like_tool_call response =
     (startswith (strip response) ''{'' \<and> contains ''\"tool\"'' response)"

text \<open>
  \<open>next((t["server_name"] for t in tools if t["name"] == tool_name), None)\<close>: the name of
  a tool is a \<open>str\<close>, and equals \<open>tool_name\<close> when that is the same \<open>str\<close>.
\<close>

fun find_server :: "tool list \<Rightarrow> json \<Rightarrow> string option" where
  "find_server [] tool_name = None"
| "find_server (t # ts) tool_name =
     (if JString (name t) = tool_name then Some (server_name t) else find_server ts tool_name)"

text \<open>The two console messages (lines 197 and 202) and the follow-up prompt (line 205).\<close>

definition calling_message :: "string \<Rightarrow> string \<Rightarrow> string" where
  "calling_message tool_name server =
     ''[dim]Calling tool '' @ tool_name @ '' on '' @ server @ ''...[/dim]''"

definition result_message :: "string \<Rightarrow> string" where
  "result_message tool_result = ''[dim]Tool Result: '' @ tool_result @ ''[/dim]''"

definition follow_up_prompt :: "string \<Rightarrow> string \<Rightarrow> string" where
  "follow_up_prompt tool_name tool_result =
     ''Tool '' @ tool_name @ '' returned: '' @ tool_result @ ''. Please continue the story.''"

text \<open>
  The body of the \<open>try\<close> after \<open>json.loads\<close> has returned \<open>tool_call\<close> (lines 190 to
  211). \<open>.get\<close> on a value that is not a \<open>dict\<close> raises \<open>AttributeError\<close> (its text is
  abbreviated here); each of the two \<open>console.print\<close> and \<open>call_tool\<close> may raise.
  \<open>if server_name:\<close> holds for a server name that is neither \<open>None\<close> nor empty. The
  result is the exception that leaves the body, or the value of \<open>response\<close> at its end:
  the first response when no tool is called, what the second \<open>generate_response\<close>
  returns otherwise.
\<close>

definition run_tool_call ::
  "collaborators \<Rightarrow> session \<Rightarrow> string \<Rightarrow> string \<Rightarrow> json \<Rightarrow> world
     \<Rightarrow> (exn + string option) \<times> world" where
  "run_tool_call ex ss system_instr response tool_call w =
     (case tool_call of
        JObject d \<Rightarrow>
          (let tool_name = dict_get d ''tool'' JNull;
               tool_args = dict_get d ''args'' (JObject []);
               server = find_server (tools ss) tool_name
           in case server of
                None \<Rightarrow> (Inr (Some response), w)
              | Some sn \<Rightarrow>
                  if sn = [] then (Inr (Some response), w)
                  else
                    (case console_print_str ex
                            (calling_message (str_of (repr ex) tool_name) sn) w of
                       Inl e \<Rightarrow> (Inl e, w)
                     | Inr w1 \<Rightarrow>
                         (let w2 = w1\<lparr>invoked := invoked w1 @ [(sn, tool_name, tool_args)]\<rparr>
                          in case call_tool ex (invoked w1) sn tool_name tool_args of
                               Inl e \<Rightarrow> (Inl e, w2)
                             | Inr tool_result \<Rightarrow>
                                 (case console_print_str ex (result_message tool_result) w2 of
                                    Inl e \<Rightarrow> (Inl e, w2)
                                  | Inr w3 \<Rightarrow>
                                      (case ai_generate_response ex ss
                                              (follow_up_prompt (str_of (repr ex) tool_name)
                                                 tool_result)
                                              system_instr w3 of
                                         (response', w4) \<Rightarrow> (Inr response', w4))))))
      | _ \<Rightarrow> (Inl (Exception ''object has no attribute get''), w))"

text \<open>The whole body of the \<open>try\<close> (lines 189 to 211), \<open>json.loads\<close> first.\<close>

definition try_tool_call ::
  "collaborators \<Rightarrow> session \<Rightarrow> string \<Rightarrow> string \<Rightarrow> world
     \<Rightarrow> (exn + string option) \<times> world" where
  "try_tool_call ex ss system_instr response w =
     (case json_loads ex response of
        Inl e \<Rightarrow> (Inl e, w)
      | Inr tool_call \<Rightarrow> run_tool_call ex ss system_instr response tool_call w)"

text \<open>
  Lines 187 to 213: the check for a tool call. \<open>except json.JSONDecodeError: pass\<close>
  catches an exception of that class wherever in the body it was raised, and \<open>response\<close>
  is then still the first response; any other exception leaves the iteration.
\<close>

definition check_tool_call ::
  "collaborators \<Rightarrow> session \<Rightarrow> string \<Rightarrow> string \<Rightarrow> world
     \<Rightarrow> (exn + string option) \<times> world" where
  "check_tool_call ex ss system_instr response w =
     (if looks_like_tool_call response then
        (case try_tool_call ex ss system_instr response w of
           (Inl (JSONDecodeError detail), w') \<Rightarrow> (Inr (Some response), w')
         | (Inl (Exception detail), w') \<Rightarrow> (Inl (Exception detail), w')
         | (Inr response', w') \<Rightarrow> (Inr response', w'))
      else (Inr (Some response), w))"

text \<open>
  Lines 149 to 213: from the user's input to the final value of \<open>response\<close>. When the
  first \<open>generate_response\<close> returns \<open>None\<close>, \<open>response.strip()\<close> raises \<open>AttributeError\<close>.
\<close>

definition none_has_no_strip :: exn where
  "none_has_no_strip =
     Exception ([CHR 0x27] @ ''NoneType'' @ [CHR 0x27] @ '' object has no attribute ''
                @ [CHR 0x27] @ ''strip'' @ [CHR 0x27])"

definition respond ::
  "collaborators \<Rightarrow> session \<Rightarrow> world \<Rightarrow> string \<Rightarrow> (exn + string option) \<times> world" where
  "respond ex ss w user_input =
     (let system_instr = build_context ss w user_input
      in case ai_generate_response ex ss user_input system_instr w of
           (None, w1) \<Rightarrow> (Inl none_has_no_strip, w1)
         | (Some response, w1) \<Rightarrow> check_tool_call ex ss system_instr response w1)"

text \<open>
  One iteration of \<open>while True\<close>, after \<open>Prompt.ask\<close> has returned \<open>user_input\<close>: the loop
  is left, or an exception leaves it, or the iteration completes. A final response that
  is \<open>None\<close> (returned by the second \<open>generate_response\<close>) makes \<open>Markdown(response)\<close>
  raise at line 215.
\<close>

datatype step = Break | Raised exn world | Completed world

definition turn :: "collaborators \<Rightarrow> session \<Rightarrow> world \<Rightarrow> string \<Rightarrow> step" where
  "turn ex ss w user_input =
     (if lower (text_case ss) user_input \<in> set [''exit'', ''quit''] then Break
      else case respond ex ss w user_input of
             (Inl e, w') \<Rightarrow> Raised e w'
           | (Inr None, w') \<Rightarrow> Raised (markdown_error ex) w'
           | (Inr (Some response), w') \<Rightarrow>
               Completed
                 (log_event (story_id ss) (''AI: '' @ take 50 response @ ''...'')
                   (log_event (story_id ss) (''User: '' @ user_input)
                     (console_print (Markdown response) w'))))"

text \<open>
  The loop, over the inputs that \<open>Prompt.ask\<close> returns one after the other; it ends with
  the world as the last iteration left it, and with the exception if one was raised.
  Running out of inputs is the end of the input stream, on which \<open>Prompt.ask\<close> raises.
\<close>

fun chat_turns :: "collaborators \<Rightarrow> session \<Rightarrow> world \<Rightarrow> string list \<Rightarrow> exn option \<times> world" where
  "chat_turns ex ss w [] = (Some (Exception ''EOF when reading a line''), w)"
| "chat_turns ex ss w (user_input # inputs) =
     (case turn ex ss w user_input of
        Break \<Rightarrow> (None, w)
      | Raised e w' \<Rightarrow> (Some e, w')
      | Completed w' \<Rightarrow> chat_turns ex ss w' inputs)"

section \<open>Notions used in the statements\<close>

text \<open>
  A character that no lower-cased text contains, for a given lower-casing. For Python's
  \<open>str.lower\<close> the letters \<open>A\<close> to \<open>Z\<close> are such characters; an upper-case letter that
  \<open>str.lower\<close> leaves unchanged (U+03D2, U+211D) is not.
\<close>

definition never_lower :: "str_case \<Rightarrow> char \<Rightarrow> bool" where
  "never_lower cs c = (\<forall>t. c \<notin> set (lower cs t))"

text \<open>
  The texts that a request carries as user messages, and the system instruction it
  carries, if any.
\<close>

fun user_texts :: "request \<Rightarrow> string list" where
  "user_texts (ChatCompletionsCreate m msgs) = map content (filter (\<lambda>x. role x = ''user'') msgs)"
| "user_texts (MessagesCreate m n s msgs) = map content (filter (\<lambda>x. role x = ''user'') msgs)"
| "user_texts (GenerateContent m s c) = [c]"

fun system_texts :: "request \<Rightarrow> string list" where
  "system_texts (ChatCompletionsCreate m msgs) =
     map content (filter (\<lambda>x. role x = ''system'') msgs)"
| "system_texts (MessagesCreate m n s msgs) = [s]"
| "system_texts (GenerateContent m s c) = (case s of None \<Rightarrow> [] | Some i \<Rightarrow> [i])"

text \<open>
  A tool round trip: the reply \<open>r\<close> looks like a tool call and is parsed to an object
  whose \<open>tool\<close> field is the string \<open>n\<close>, the first discovered tool named \<open>n\<close> has a server
  name that is not empty, the message of line 197 is printed, invoking the tool with the
  object's \<open>args\<close> returns \<open>result\<close>, and the message of line 202 is printed.
\<close>

definition tool_round_trip ::
  "collaborators \<Rightarrow> session \<Rightarrow> world \<Rightarrow> string \<Rightarrow> string \<Rightarrow> string \<Rightarrow> bool" where
  "tool_round_trip ex ss w r n result =
     (looks_like_tool_call r \<and>
      (\<exists>d pre t post.
         json_loads ex r = Inr (JObject d) \<and> dict_get d ''tool'' JNull = JString n \<and>
         tools ss = pre @ t # post \<and> name t = n \<and> (\<forall>t'\<in>set pre. name t' \<noteq> n) \<and>
         server_name t \<noteq> [] \<and>
         markup_error ex (calling_message n (server_name t)) = None \<and>
         call_tool ex (invoked w) (server_name t) (JString n) (dict_get d ''args'' (JObject []))
           = Inr result \<and>
         markup_error ex (result_message result) = None))"

section \<open>Concrete inputs\<close>

text \<open>
  Collaborators for running the model: a provider whose \<open>i\<close>-th answer has one choice,
  with the \<open>i\<close>-th content of a script, and which raises once the script is used up; an
  environment with the three keys; the JSON parser on the replies of the examples, given
  as a table (a text outside the table is not a JSON document); a tool invocation with a
  fixed outcome; a console that prints the messages of the examples; and the exception of
  the Markdown parser on \<open>None\<close>.
\<close>

definition scripted :: "string option list \<Rightarrow> remote" where
  "scripted replies =
     \<lparr> chat_completions_create =
         (\<lambda>before m msgs. if length before < length replies then Inr [replies ! length before]
                           else Inl (Exception ''Connection error.'')),
       messages_create = (\<lambda>before m n s msgs. Inl (Exception ''Connection error.'')),
       generate_content = (\<lambda>before m s c. Inl (Exception ''Connection error.'')) \<rparr>"

definition demo_env :: environ where
  "demo_env key =
     (if key = ''OPENAI_API_KEY'' then Some ''sk-demo''
      else if key = ''ANTHROPIC_API_KEY'' then Some ''sk-ant-demo''
      else if key = ''GEMINI_API_KEY'' then Some ''g-demo''
      else None)"

definition demo_collab ::
  "string option list \<Rightarrow> (string \<times> (exn + json)) list \<Rightarrow> exn + string \<Rightarrow> collaborators" where
  "demo_collab replies parsed outcome =
     \<lparr> providers = scripted replies,
       getenv = demo_env,
       json_loads =
         (\<lambda>s. case map_of parsed s of
                 None \<Rightarrow> Inl (JSONDecodeError ''Expecting value: line 1 column 1 (char 0)'')
               | Some v \<Rightarrow> v),
       repr = (\<lambda>v. ''<value>''),
       call_tool = (\<lambda>before server tool_name tool_args. outcome),
       markup_error = (\<lambda>s. None),
       markdown_error =
         Exception (''Input data should be a string, not <class '' @ [CHR 0x27] @ ''NoneType''
                    @ [CHR 0x27] @ ''>'') \<rparr>"

definition dice_tool :: tool where
  "dice_tool =
     \<lparr> name = ''roll_dice'', description = Described ''Roll dice'', server_name = ''dice'' \<rparr>"

definition demo_session :: "tool list \<Rightarrow> session" where
  "demo_session ts =
     \<lparr> text_case = py_case,
       lore = [(''dragon'', ''Ancient red dragon, feared by all.'')],
       ai = setup_clients demo_env,
       tools = ts,
       provider = ''openai'',
       model = ''gpt-4o'',
       story_id = 1,
       story_summary = ''A quest begins.'' \<rparr>"

definition world0 :: world where
  "world0 = \<lparr> sent = [], generations = [], invoked = [], console = [], events = [] \<rparr>"

definition door_reply :: string where
  "door_reply = ''The door creaks open and a cold wind rushes past you into the dark.''"



definition spell_reply :: string where
  "spell_reply = ''{\"tool\": \"cast_spell\", \"args\": {\"spell\": \"fireball\", \"level\": 3}}''"

definition spell_call :: json where
  "spell_call =
     JObject [(''tool'', JString ''cast_spell''),
              (''args'', JObject [(''spell'', JString ''fireball''), (''level'', JNumber ''3'')])]"

text \<open>
  A reply that opens an object and then a hundred thousand arrays, and the exception with which
  \<open>json.loads\<close> leaves it: a \<open>RecursionError\<close>, not a \<open>JSONDecodeError\<close>.
\<close>

definition deep_reply :: string where
  "deep_reply = ''{\"tool\":'' @ replicate 100000 (CHR ''['')"

definition recursion_error :: exn where
  "recursion_error =
     Exception ''maximum recursion depth exceeded while decoding a JSON array from a unicode string''"

definition german_lore :: lore_cache where
  "german_lore = [(''greeting'', ''Gru'' @ [CHR 0xDF])]"

section \<open>Facts about the string operations\<close>

lemma startswith_iff: "startswith s p \<longleftrightarrow> (\<exists>rest. s = p @ rest)"
  unfolding startswith_def
  by (metis append_eq_conv_conj append_take_drop_id)

lemma contains_iff: "contains sub s \<longleftrightarrow> (\<exists>pre post. s = pre @ sub @ post)"
proof (induction s)
  case Nil
  then show ?case by auto
next
  case (Cons c s)
  show ?case
  proof
    assume "contains sub (c # s)"
    then consider "startswith (c # s) sub" | "contains sub s" by auto
    then show "\<exists>pre post. c # s = pre @ sub @ post"
    proof cases
      case 1
      then obtain rest where "c # s = sub @ rest" by (auto simp: startswith_iff)
      then have "c # s = [] @ sub @ rest" by simp
      then show ?thesis by blast
    next
      case 2
      then obtain pre post where "s = pre @ sub @ post" using Cons.IH by auto
      then have "c # s = (c # pre) @ sub @ post" by simp
      then show ?thesis by blast
    qed
  next
    assume "\<exists>pre post. c # s = pre @ sub @ post"
    then obtain pre post where eq: "c # s = pre @ sub @ post" by auto
    show "contains sub (c # s)"
    proof (cases pre)
      case Nil
      then have "startswith (c # s) sub" using eq by (auto simp: startswith_iff)
      then show ?thesis by simp
    next
      case (Cons a pre')
      then have "s = pre' @ sub @ post" using eq by simp
      then have "contains sub s" using Cons.IH by blast
      then show ?thesis by simp
    qed
  qed
qed

lemma brace_not_space: "\<not> isspace (CHR ''{'')"
  by (simp add: isspace_def)

lemma strip_decompose: "\<exists>tail. dropWhile isspace s = strip s @ tail"
proof -
  let ?d = "dropWhile isspace s"
  have "rev ?d = takeWhile isspace (rev ?d) @ dropWhile isspace (rev ?d)" by simp
  then have "?d = rev (dropWhile isspace (rev ?d)) @ rev (takeWhile isspace (rev ?d))"
    by (metis rev_append rev_rev_ident)
  then show ?thesis unfolding strip_def by blast
qed

lemma strip_startswith_brace:
  "startswith (strip r) ''{'' \<longleftrightarrow>
     (\<exists>ws rest. r = ws @ ''{'' @ rest \<and> (\<forall>c\<in>set ws. isspace c))"
proof
  assume "startswith (strip r) ''{''"
  then obtain u where u: "strip r = ''{'' @ u" by (auto simp: startswith_iff)
  obtain tail where "dropWhile isspace r = strip r @ tail" using strip_decompose by blast
  then have "r = takeWhile isspace r @ ''{'' @ (u @ tail)"
    using u by (metis append.assoc takeWhile_dropWhile_id)
  moreover have "\<forall>c\<in>set (takeWhile isspace r). isspace c"
    by (auto dest: set_takeWhileD)
  ultimately show "\<exists>ws rest. r = ws @ ''{'' @ rest \<and> (\<forall>c\<in>set ws. isspace c)" by blast
next
  assume "\<exists>ws rest. r = ws @ ''{'' @ rest \<and> (\<forall>c\<in>set ws. isspace c)"
  then obtain ws rest where r: "r = ws @ ''{'' @ rest" and ws: "\<forall>c\<in>set ws. isspace c" by blast
  have d: "dropWhile isspace r = CHR ''{'' # rest"
    using r ws brace_not_space by (simp add: dropWhile_append2)
  have "\<exists>zs. dropWhile isspace (rev rest @ [CHR ''{'']) = zs @ [CHR ''{'']"
    using brace_not_space by (simp add: dropWhile_append)
  then obtain zs where "dropWhile isspace (rev rest @ [CHR ''{'']) = zs @ [CHR ''{'']" by blast
  then have "strip r = CHR ''{'' # rev zs"
    using d by (simp add: strip_def)
  then show "startswith (strip r) ''{''" by (simp add: startswith_def)
qed

section \<open>The lore manager: results\<close>

lemma load_files_cong:
  "map_of c k = map_of c' k \<Longrightarrow> map_of (load_files files c) k = map_of (load_files files c') k"
proof (induction files arbitrary: c c')
  case Nil
  then show ?case by simp
next
  case (Cons f files)
  obtain s r where f: "f = (s, r)" by (cases f)
  show ?case
  proof (cases r)
    case (Inl e)
    then show ?thesis using Cons.IH [OF Cons.prems] f by simp
  next
    case (Inr body)
    have "map_of (AList.update s body c) k = map_of (AList.update s body c') k"
      using Cons.prems by (simp add: update_conv')
    then have "map_of (load_files files (AList.update s body c)) k =
               map_of (load_files files (AList.update s body c')) k"
      by (rule Cons.IH)
    then show ?thesis using f Inr by simp
  qed
qed

lemma load_files_absent:
  "k \<notin> fst ` set files \<Longrightarrow> map_of (load_files files c) k = map_of c k"
proof (induction files arbitrary: c)
  case Nil
  then show ?case by simp
next
  case (Cons f files)
  obtain s r where f: "f = (s, r)" by (cases f)
  have ks: "k \<noteq> s" and rest: "k \<notin> fst ` set files"
    using Cons.prems f by auto
  show ?case
  proof (cases r)
    case (Inl e)
    then show ?thesis using Cons.IH [OF rest] f by simp
  next
    case (Inr body)
    then show ?thesis using Cons.IH [OF rest] f ks by (simp add: update_conv')
  qed
qed

lemma load_files_without:
  "k \<noteq> stem \<Longrightarrow>
     map_of (load_files (filter (\<lambda>f. fst f \<noteq> stem) files) c) k = map_of (load_files files c) k"
proof (induction files arbitrary: c)
  case Nil
  then show ?case by simp
next
  case (Cons f files)
  obtain s r where f: "f = (s, r)" by (cases f)
  show ?case
  proof (cases "s = stem")
    case False
    then show ?thesis using Cons.IH [OF Cons.prems] f by (cases r) simp_all
  next
    case True
    show ?thesis
    proof (cases r)
      case (Inl e)
      then show ?thesis using Cons.IH [OF Cons.prems] f True by simp
    next
      case (Inr body)
      have "map_of (AList.update s body c) k = map_of c k"
        using Cons.prems True by (simp add: update_conv')
      then have "map_of (load_files files (AList.update s body c)) k = map_of (load_files files c) k"
        by (rule load_files_cong)
      then show ?thesis using Cons.IH [OF Cons.prems] f True Inr by simp
    qed
  qed
qed

lemma load_files_stored:
  "distinct (map fst files) \<Longrightarrow> (stem, Inr text) \<in> set files \<Longrightarrow>
     map_of (load_files files c) stem = Some text"
proof (induction files arbitrary: c)
  case Nil
  then show ?case by simp
next
  case (Cons f files)
  obtain s r where f: "f = (s, r)" by (cases f)
  show ?case
  proof (cases "f = (stem, Inr text)")
    case True
    then have "stem \<notin> fst ` set files" using Cons.prems by auto
    then have "map_of (load_files files (AList.update stem text c)) stem = Some text"
      by (simp add: load_files_absent update_conv')
    then show ?thesis using True by simp
  next
    case False
    then have "(stem, Inr text) \<in> set files" and "distinct (map fst files)"
      using Cons.prems by auto
    then have "\<And>c. map_of (load_files files c) stem = Some text"
      using Cons.IH by blast
    then show ?thesis using f by (cases r) simp_all
  qed
qed

text \<open>
  For the instance \<open>py_case\<close> no lower-cased text contains any of the letters \<open>A\<close> to
  \<open>Z\<close>.
\<close>

lemma lower_char_not_upper:
  "c \<in> set ''ABCDEFGHIJKLMNOPQRSTUVWXYZ'' \<Longrightarrow> lower_char x \<noteq> c"
  by (auto simp: lower_char_def)

lemma never_lower_py_case:
  assumes "c \<in> set ''ABCDEFGHIJKLMNOPQRSTUVWXYZ''"
  shows "never_lower py_case c"
proof -
  have "c \<noteq> lower_char x" for x
    using lower_char_not_upper [OF assms, of x] by metis
  then show ?thesis
    by (auto simp: never_lower_def py_case_def)
qed

lemma lower_py_case_no_D: "never_lower py_case (CHR ''D'')"
  by (rule never_lower_py_case) simp

lemma lower_upper_char: "c \<noteq> CHR 0xDF \<Longrightarrow> map lower_char (upper_char c) = [lower_char c]"
  by (simp add: lower_char_def upper_char_def)

text \<open>
  On texts without U+00DF the instance \<open>py_case\<close> satisfies the condition under which
  a query and its upper case are searched alike.
\<close>

lemma lower_upper_py_case:
  "CHR 0xDF \<notin> set q \<Longrightarrow> lower py_case (upper py_case q) = lower py_case q"
  by (induction q) (auto simp: py_case_def lower_upper_char)

lemmas search_eval =
  search_lore_def py_case_def lower_char_def upper_char_def startswith_def no_lore_def nl_def

text \<open>
  Claim C4, at an input where the code departs from it. The lore directory holds one file,
  \<open>Dragon.md\<close>, with the text \<open>Ancient beast\<close>, and the query is \<open>dragon\<close>. The query
  occurs in the topic name when case is ignored, so the claim has the document returned
  under a header. \<open>search_lore\<close> lower-cases the query and the content but compares with
  the topic as stored, finds no match and returns the sentinel.
\<close>

theorem search_lore_misses_upper_case_topic:
  "search_lore py_case (LoreManager (Some [(''Dragon'', Inr ''Ancient beast'')])) ''dragon''
     = ''No specific lore found for this query.''"
  by (simp add: search_eval LoreManager_def load_lore_def)

text \<open>
  Claim C5, as amended. \<open>search_lore(q)\<close> equals \<open>search_lore(q.upper())\<close> for every
  corpus and every query \<open>q\<close> whose upper case has the same lower case as \<open>q\<close> itself
  (every ASCII query is one); and on the empty corpus \<open>search_lore\<close> returns the sentinel
  for every query.
\<close>

theorem search_lore_upper_query:
  "(lower cs (upper cs q) = lower cs q \<longrightarrow>
      search_lore cs lore_cache q = search_lore cs lore_cache (upper cs q))
   \<and> search_lore cs [] q = ''No specific lore found for this query.''"
  by (simp add: search_lore_def no_lore_def)

theorem search_lore_upper_query_witness:
  "lower py_case (upper py_case ''Dragon'') = lower py_case ''Dragon'' \<and>
   search_lore py_case [(''dragon'', ''Ancient red dragon, feared by all.'')] ''Dragon'' =
   search_lore py_case [(''dragon'', ''Ancient red dragon, feared by all.'')]
     (upper py_case ''Dragon'')"
  using search_lore_upper_query
          [of py_case "''Dragon''" "[(''dragon'', ''Ancient red dragon, feared by all.'')]"]
  by (simp add: py_case_def lower_char_def upper_char_def)

text \<open>
  Claim C5 as stated fails at the query \<open>\<ss>\<close> (U+00DF) on a corpus whose only document,
  \<open>greeting\<close>, has the text \<open>Gru\<ss>\<close>: the query matches the content, while its upper
  case \<open>SS\<close> is searched as \<open>ss\<close> and matches nothing.
\<close>

theorem search_lore_upper_query_counterexample:
  "search_lore py_case german_lore [CHR 0xDF]
     \<noteq> search_lore py_case german_lore (upper py_case [CHR 0xDF])"
  by (simp add: search_eval german_lore_def)

text \<open>
  Claim C10, as amended. \<open>get_lore(t)\<close> looks up \<open>t.lower()\<close>, and loading stores each
  readable file under its stem as it is. So for a file whose stem contains a character
  that no lower-cased text contains (each of the letters \<open>A\<close> to \<open>Z\<close> is one), no input
  reaches the entry of that file: \<open>get_lore\<close> gives what it gives on the directory
  without the file, and gives \<open>None\<close> for every input when every stem contains such a
  character.
\<close>

theorem get_lore_skips_upper_case_stem:
  assumes "c \<in> set stem" and "never_lower cs c"
  shows "get_lore cs lore_cache topic = map_of lore_cache (lower cs topic)
    \<and> (distinct (map fst files) \<and> (stem, Inr body) \<in> set files
         \<longrightarrow> map_of (LoreManager (Some files)) stem = Some body)
    \<and> get_lore cs (LoreManager (Some files)) topic =
        get_lore cs (LoreManager (Some (filter (\<lambda>f. fst f \<noteq> stem) files))) topic
    \<and> ((\<forall>f\<in>set files. \<exists>c'\<in>set (fst f). never_lower cs c')
         \<longrightarrow> get_lore cs (LoreManager (Some files)) topic = None)"
proof -
  have "lower cs topic \<noteq> stem"
    using assms by (auto simp: never_lower_def)
  then have skip: "get_lore cs (LoreManager (Some files)) topic =
      get_lore cs (LoreManager (Some (filter (\<lambda>f. fst f \<noteq> stem) files))) topic"
    by (simp add: get_lore_def LoreManager_def load_lore_def load_files_without)
  have none: "get_lore cs (LoreManager (Some files)) topic = None"
    if all: "\<forall>f\<in>set files. \<exists>c'\<in>set (fst f). never_lower cs c'"
  proof -
    have "lower cs topic \<notin> fst ` set files"
    proof
      assume "lower cs topic \<in> fst ` set files"
      then obtain f where f: "f \<in> set files" "fst f = lower cs topic" by auto
      then obtain c' where "c' \<in> set (lower cs topic)" "never_lower cs c'"
        using all by force
      then show False by (simp add: never_lower_def)
    qed
    then show ?thesis
      by (simp add: get_lore_def LoreManager_def load_lore_def load_files_absent)
  qed
  show ?thesis
    using skip none
    by (simp add: get_lore_def LoreManager_def load_lore_def load_files_stored)
qed

theorem get_lore_skips_upper_case_stem_witness:
  "CHR ''D'' \<in> set ''Dragon'' \<and> never_lower py_case (CHR ''D'') \<and>
   get_lore py_case
     (LoreManager (Some [(''Dragon'', Inr ''Fire''), (''elf'', Inr ''Ears'')])) ''Dragon'' = None \<and>
   get_lore py_case (LoreManager (Some [(''Dragon'', Inr ''Fire'')])) ''Dragon'' = None"
  using get_lore_skips_upper_case_stem [where c = "CHR ''D''" and stem = "''Dragon''"
          and cs = py_case and files = "[(''Dragon'', Inr ''Fire''), (''elf'', Inr ''Ears'')]"
          and topic = "''Dragon''"]
    get_lore_skips_upper_case_stem [where c = "CHR ''D''" and stem = "''Dragon''"
          and cs = py_case and files = "[(''Dragon'', Inr ''Fire'')]" and topic = "''Dragon''"]
    lower_py_case_no_D
  by (simp add: get_lore_def LoreManager_def load_lore_def py_case_def lower_char_def)

text \<open>
  Claim C10 as stated fails when the directory holds \<open>Dragon.md\<close> and \<open>dragon.md\<close>:
  for the input \<open>Dragon\<close>, the base name of the first, \<open>get_lore\<close> returns the text of
  the second, not \<open>None\<close>.
\<close>

theorem get_lore_skips_upper_case_stem_counterexample:
  "get_lore py_case
     (LoreManager (Some [(''Dragon'', Inr ''Fire''), (''dragon'', Inr ''Smoke'')])) ''Dragon''
     = Some ''Smoke''"
  by (simp add: get_lore_def LoreManager_def load_lore_def py_case_def lower_char_def)

section \<open>The generation gateway: results\<close>

text \<open>
  Claim C6. For a provider tag other than \<open>openai\<close>, \<open>anthropic\<close> and \<open>gemini\<close>,
  \<open>generate_response\<close> returns \<open>Error: Unknown provider '<tag>'\<close> with the tag in place,
  whatever the other arguments, and sends no request: the requests sent are those sent
  before.
\<close>

theorem unknown_provider:
  assumes "p \<notin> {''openai'', ''anthropic'', ''gemini''}"
  shows "generate_response rm ge gw sent0 prompt sys p m =
           (Some (''Error: Unknown provider '' @ [CHR 0x27] @ p @ [CHR 0x27]), sent0)"
  using assms by (simp add: generate_response_def dispatch_def)

theorem unknown_provider_witness:
  "''carrier-pigeon'' \<notin> {''openai'', ''anthropic'', ''gemini''} \<and>
   generate_response (scripted []) demo_env (setup_clients demo_env) [] ''Hello'' ''Be brief''
       ''carrier-pigeon'' ''gpt-4o'' =
     (Some (''Error: Unknown provider 'carrier-pigeon'' @ [CHR 0x27]), [])"
  using unknown_provider [of "''carrier-pigeon''" "scripted []" demo_env "setup_clients demo_env"
          "[]" "''Hello''" "''Be brief''" "''gpt-4o''"]
  by simp

text \<open>
  An exception of a provider call, or of reading its response, is caught and returned as
  the string \<open>Error generating response with <provider>: <detail>\<close>.
\<close>

lemma openai_raises:
  assumes "openai_client gw \<noteq> None"
      and "chat_completions_create rm sent0 m
             ((if sys \<noteq> [] then [Message ''system'' sys] else []) @ [Message ''user'' prompt])
             = Inl e"
  shows "fst (generate_response rm ge gw sent0 prompt sys ''openai'' m)
           = Some (''Error generating response with openai: '' @ str_exn e)"
  using assms by (auto simp: generate_response_def dispatch_def generate_openai_def)

lemma openai_no_choice:
  assumes "openai_client gw \<noteq> None"
      and "chat_completions_create rm sent0 m
             ((if sys \<noteq> [] then [Message ''system'' sys] else []) @ [Message ''user'' prompt])
             = Inr []"
  shows "fst (generate_response rm ge gw sent0 prompt sys ''openai'' m)
           = Some ''Error generating response with openai: list index out of range''"
  using assms by (auto simp: generate_response_def dispatch_def generate_openai_def first_def)

lemma anthropic_raises:
  assumes "anthropic_client gw \<noteq> None"
      and "messages_create rm sent0 m 1024 sys [Message ''user'' prompt] = Inl e"
  shows "fst (generate_response rm ge gw sent0 prompt sys ''anthropic'' m)
           = Some (''Error generating response with anthropic: '' @ str_exn e)"
  using assms by (auto simp: generate_response_def dispatch_def generate_anthropic_def)

lemma gemini_raises:
  assumes "truthy (ge ''GEMINI_API_KEY'')"
      and "generate_content rm sent0 m (if sys \<noteq> [] then Some sys else None) prompt = Inl e"
  shows "fst (generate_response rm ge gw sent0 prompt sys ''gemini'' m)
           = Some (''Error generating response with gemini: '' @ str_exn e)"
  using assms by (auto simp: generate_response_def dispatch_def generate_gemini_def)

lemma dispatch_raises:
  assumes "fst (dispatch rm ge gw sent0 prompt sys p m) = Inl e"
  shows "fst (generate_response rm ge gw sent0 prompt sys p m)
           = Some (''Error generating response with '' @ p @ '': '' @ str_exn e)"
  using assms by (cases "dispatch rm ge gw sent0 prompt sys p m") (simp add: generate_response_def)

lemma anthropic_returns_string:
  "fst (generate_response rm ge gw sent0 prompt sys ''anthropic'' m) \<noteq> None"
proof (cases "anthropic_client gw")
  case None
  then show ?thesis
    by (simp add: generate_response_def dispatch_def generate_anthropic_def)
next
  case (Some k)
  show ?thesis
  proof (cases "messages_create rm sent0 m 1024 sys [Message ''user'' prompt]")
    case (Inl e)
    then show ?thesis
      using Some by (simp add: generate_response_def dispatch_def generate_anthropic_def)
  next
    case (Inr blocks)
    then show ?thesis
      using Some
      by (cases blocks)
         (simp_all add: generate_response_def dispatch_def generate_anthropic_def first_def)
  qed
qed

lemma gemini_returns_string:
  "fst (generate_response rm ge gw sent0 prompt sys ''gemini'' m) \<noteq> None"
proof (cases "truthy (ge ''GEMINI_API_KEY'')")
  case False
  then show ?thesis
    by (simp add: generate_response_def dispatch_def generate_gemini_def)
next
  case True
  then show ?thesis
    by (cases "generate_content rm sent0 m (if sys \<noteq> [] then Some sys else None) prompt")
       (simp_all add: generate_response_def dispatch_def generate_gemini_def Let_def)
qed

text \<open>
  \<open>generate_response\<close> returns \<open>None\<close> in one case only: OpenAI is the provider, its
  client exists, the call returns, and the content of the first choice is \<open>None\<close>.
\<close>

lemma generate_response_None_iff:
  "fst (generate_response rm ge gw sent0 prompt sys p m) = None \<longleftrightarrow>
     p = ''openai'' \<and> openai_client gw \<noteq> None \<and>
     (\<exists>rest. chat_completions_create rm sent0 m
                ((if sys \<noteq> [] then [Message ''system'' sys] else []) @ [Message ''user'' prompt])
              = Inr (None # rest))"
proof -
  consider "p = ''openai''" | "p = ''anthropic''" | "p = ''gemini''"
    | "p \<notin> {''openai'', ''anthropic'', ''gemini''}" by blast
  then show ?thesis
  proof cases
    case 1
    let ?ms = "(if sys \<noteq> [] then [Message ''system'' sys] else []) @ [Message ''user'' prompt]"
    show ?thesis
    proof (cases "openai_client gw")
      case None
      then show ?thesis
        using 1 by (simp add: generate_response_def dispatch_def generate_openai_def)
    next
      case (Some k)
      show ?thesis
      proof (cases "chat_completions_create rm sent0 m ?ms")
        case (Inl e)
        then show ?thesis
          using 1 Some
          by (simp add: generate_response_def dispatch_def generate_openai_def Let_def)
      next
        case (Inr choices)
        then show ?thesis
          using 1 Some
          by (cases choices)
             (simp_all add: generate_response_def dispatch_def generate_openai_def first_def
                Let_def)
      qed
    qed
  next
    case 2
    then show ?thesis by (simp add: anthropic_returns_string)
  next
    case 3
    then show ?thesis by (simp add: gemini_returns_string)
  next
    case 4
    then show ?thesis
      by (auto simp: generate_response_def dispatch_def)
  qed
qed

text \<open>
  The requests that \<open>generate_response\<close> sends: at most one, whose only user text is the
  prompt, and which carries a system instruction that is not empty as its own system
  text (a system message for OpenAI, the \<open>system\<close> field for Anthropic, the instruction of
  the model instance for Gemini). \<open>full_prompt\<close> is sent nowhere.
\<close>

lemma sent_openai:
  "snd (generate_response rm ge gw sent0 prompt sys ''openai'' m) =
     sent0 @ (if openai_client gw = None then []
              else [ChatCompletionsCreate m
                      ((if sys \<noteq> [] then [Message ''system'' sys] else [])
                       @ [Message ''user'' prompt])])"
  by (cases "chat_completions_create rm sent0 m
               ((if sys \<noteq> [] then [Message ''system'' sys] else []) @ [Message ''user'' prompt])")
     (auto simp: generate_response_def dispatch_def generate_openai_def
           split: sum.splits)

lemma sent_anthropic:
  "snd (generate_response rm ge gw sent0 prompt sys ''anthropic'' m) =
     sent0 @ (if anthropic_client gw = None then []
              else [MessagesCreate m 1024 sys [Message ''user'' prompt]])"
  by (cases "messages_create rm sent0 m 1024 sys [Message ''user'' prompt]")
     (auto simp: generate_response_def dispatch_def generate_anthropic_def
           split: sum.splits)

lemma sent_gemini:
  "snd (generate_response rm ge gw sent0 prompt sys ''gemini'' m) =
     sent0 @ (if truthy (ge ''GEMINI_API_KEY'')
              then [GenerateContent m (if sys \<noteq> [] then Some sys else None) prompt]
              else [])"
  by (cases "generate_content rm sent0 m (if sys \<noteq> [] then Some sys else None) prompt")
     (auto simp: generate_response_def dispatch_def generate_gemini_def
           split: sum.splits)

lemma sent_unknown:
  "p \<notin> {''openai'', ''anthropic'', ''gemini''} \<Longrightarrow>
     snd (generate_response rm ge gw sent0 prompt sys p m) = sent0"
  by (simp add: generate_response_def dispatch_def)

lemma requests_sent:
  "\<exists>new. snd (generate_response rm ge gw sent0 prompt sys p m) = sent0 @ new \<and>
          length new \<le> 1 \<and>
          (\<forall>rq\<in>set new. user_texts rq = [prompt] \<and> (sys \<noteq> [] \<longrightarrow> system_texts rq = [sys]))"
proof -
  consider "p = ''openai''" | "p = ''anthropic''" | "p = ''gemini''"
    | "p \<notin> {''openai'', ''anthropic'', ''gemini''}" by blast
  then show ?thesis
  proof cases
    case 1
    then show ?thesis by (simp add: sent_openai)
  next
    case 2
    then show ?thesis by (simp add: sent_anthropic)
  next
    case 3
    then show ?thesis by (simp add: sent_gemini)
  next
    case 4
    then show ?thesis by (simp add: sent_unknown)
  qed
qed

section \<open>The turn loop: results\<close>

lemma ai_generate_response_effects:
  assumes "ai_generate_response ex ss p s w = (r, w1)"
  shows "generations w1 = generations w @ [(p, s, provider ss, model ss)]"
    and "invoked w1 = invoked w" and "events w1 = events w" and "console w1 = console w"
  using assms by (auto simp: ai_generate_response_def split: prod.splits)

text \<open>What a call returns depends on the world through the requests sent so far only.\<close>

lemma ai_generate_response_returned:
  "sent w' = sent w \<Longrightarrow>
     fst (ai_generate_response ex ss p s w') = fst (ai_generate_response ex ss p s w)"
  by (simp add: ai_generate_response_def split: prod.splits)

lemma find_server_None_iff:
  "find_server ts v = None \<longleftrightarrow> (\<forall>t\<in>set ts. JString (name t) \<noteq> v)"
  by (induction ts) auto

lemma find_server_Some_iff:
  "find_server ts v = Some sn \<longleftrightarrow>
     (\<exists>pre t post. ts = pre @ t # post \<and> JString (name t) = v \<and>
        (\<forall>t'\<in>set pre. JString (name t') \<noteq> v) \<and> server_name t = sn)"
proof (induction ts)
  case Nil
  then show ?case by simp
next
  case (Cons a ts)
  show ?case
  proof (cases "JString (name a) = v")
    case True
    have "find_server (a # ts) v = Some sn \<longleftrightarrow> server_name a = sn" using True by auto
    also have "\<dots> \<longleftrightarrow> (\<exists>pre t post. a # ts = pre @ t # post \<and> JString (name t) = v \<and>
        (\<forall>t'\<in>set pre. JString (name t') \<noteq> v) \<and> server_name t = sn)"
    proof
      assume "server_name a = sn"
      then have "a # ts = [] @ a # ts \<and> JString (name a) = v \<and>
        (\<forall>t'\<in>set []. JString (name t') \<noteq> v) \<and> server_name a = sn" using True by simp
      then show "\<exists>pre t post. a # ts = pre @ t # post \<and> JString (name t) = v \<and>
        (\<forall>t'\<in>set pre. JString (name t') \<noteq> v) \<and> server_name t = sn" by blast
    next
      assume "\<exists>pre t post. a # ts = pre @ t # post \<and> JString (name t) = v \<and>
        (\<forall>t'\<in>set pre. JString (name t') \<noteq> v) \<and> server_name t = sn"
      then obtain pre t post where p: "a # ts = pre @ t # post" "JString (name t) = v"
        "\<forall>t'\<in>set pre. JString (name t') \<noteq> v" "server_name t = sn" by blast
      have "pre = []"
      proof (cases pre)
        case Nil
        then show ?thesis .
      next
        case (Cons b pre')
        then have "b = a" using p(1) by simp
        then show ?thesis using p(3) Cons True by simp
      qed
      then show "server_name a = sn" using p by simp
    qed
    finally show ?thesis .
  next
    case False
    have "find_server (a # ts) v = Some sn \<longleftrightarrow> find_server ts v = Some sn" using False by simp
    also have "\<dots> \<longleftrightarrow> (\<exists>pre t post. ts = pre @ t # post \<and> JString (name t) = v \<and>
        (\<forall>t'\<in>set pre. JString (name t') \<noteq> v) \<and> server_name t = sn)" by (rule Cons.IH)
    also have "\<dots> \<longleftrightarrow> (\<exists>pre t post. a # ts = pre @ t # post \<and> JString (name t) = v \<and>
        (\<forall>t'\<in>set pre. JString (name t') \<noteq> v) \<and> server_name t = sn)"
    proof
      assume "\<exists>pre t post. ts = pre @ t # post \<and> JString (name t) = v \<and>
        (\<forall>t'\<in>set pre. JString (name t') \<noteq> v) \<and> server_name t = sn"
      then obtain pre t post where p: "ts = pre @ t # post" "JString (name t) = v"
        "\<forall>t'\<in>set pre. JString (name t') \<noteq> v" "server_name t = sn" by blast
      then have "a # ts = (a # pre) @ t # post \<and> JString (name t) = v \<and>
        (\<forall>t'\<in>set (a # pre). JString (name t') \<noteq> v) \<and> server_name t = sn"
        using False by simp
      then show "\<exists>pre t post. a # ts = pre @ t # post \<and> JString (name t) = v \<and>
        (\<forall>t'\<in>set pre. JString (name t') \<noteq> v) \<and> server_name t = sn" by blast
    next
      assume "\<exists>pre t post. a # ts = pre @ t # post \<and> JString (name t) = v \<and>
        (\<forall>t'\<in>set pre. JString (name t') \<noteq> v) \<and> server_name t = sn"
      then obtain pre t post where p: "a # ts = pre @ t # post" "JString (name t) = v"
        "\<forall>t'\<in>set pre. JString (name t') \<noteq> v" "server_name t = sn" by blast
      obtain pre' where pre: "pre = a # pre'"
        using p(1,2) False by (cases pre) auto
      then have "ts = pre' @ t # post \<and> JString (name t) = v \<and>
        (\<forall>t'\<in>set pre'. JString (name t') \<noteq> v) \<and> server_name t = sn" using p by simp
      then show "\<exists>pre t post. ts = pre @ t # post \<and> JString (name t) = v \<and>
        (\<forall>t'\<in>set pre. JString (name t') \<noteq> v) \<and> server_name t = sn" by blast
    qed
    finally show ?thesis .
  qed
qed

lemma find_server_Some_string:
  "find_server ts v = Some sn \<Longrightarrow> \<exists>n. v = JString n"
  by (induction ts) (auto split: if_splits)

lemma tool_round_trip_iff:
  "tool_round_trip ex ss w r n result \<longleftrightarrow>
     looks_like_tool_call r \<and>
     (\<exists>d sn. json_loads ex r = Inr (JObject d) \<and> dict_get d ''tool'' JNull = JString n \<and>
        find_server (tools ss) (JString n) = Some sn \<and> sn \<noteq> [] \<and>
        markup_error ex (calling_message n sn) = None \<and>
        call_tool ex (invoked w) sn (JString n) (dict_get d ''args'' (JObject [])) = Inr result \<and>
        markup_error ex (result_message result) = None)"
proof
  assume "tool_round_trip ex ss w r n result"
  then obtain d pre t post where looks: "looks_like_tool_call r"
    and d: "json_loads ex r = Inr (JObject d)" "dict_get d ''tool'' JNull = JString n"
    and t: "tools ss = pre @ t # post" "name t = n" "\<forall>t'\<in>set pre. name t' \<noteq> n"
    and sn: "server_name t \<noteq> []"
    and m1: "markup_error ex (calling_message n (server_name t)) = None"
    and call: "call_tool ex (invoked w) (server_name t) (JString n)
                 (dict_get d ''args'' (JObject [])) = Inr result"
    and m2: "markup_error ex (result_message result) = None"
    unfolding tool_round_trip_def by blast
  have "find_server (tools ss) (JString n) = Some (server_name t)"
    unfolding find_server_Some_iff using t by auto
  then show "looks_like_tool_call r \<and>
     (\<exists>d sn. json_loads ex r = Inr (JObject d) \<and> dict_get d ''tool'' JNull = JString n \<and>
        find_server (tools ss) (JString n) = Some sn \<and> sn \<noteq> [] \<and>
        markup_error ex (calling_message n sn) = None \<and>
        call_tool ex (invoked w) sn (JString n) (dict_get d ''args'' (JObject [])) = Inr result \<and>
        markup_error ex (result_message result) = None)"
    using looks d sn m1 call m2 by blast
next
  assume "looks_like_tool_call r \<and>
     (\<exists>d sn. json_loads ex r = Inr (JObject d) \<and> dict_get d ''tool'' JNull = JString n \<and>
        find_server (tools ss) (JString n) = Some sn \<and> sn \<noteq> [] \<and>
        markup_error ex (calling_message n sn) = None \<and>
        call_tool ex (invoked w) sn (JString n) (dict_get d ''args'' (JObject [])) = Inr result \<and>
        markup_error ex (result_message result) = None)"
  then obtain d sn where looks: "looks_like_tool_call r"
    and d: "json_loads ex r = Inr (JObject d)" "dict_get d ''tool'' JNull = JString n"
    and f: "find_server (tools ss) (JString n) = Some sn" and sn: "sn \<noteq> []"
    and m1: "markup_error ex (calling_message n sn) = None"
    and call: "call_tool ex (invoked w) sn (JString n) (dict_get d ''args'' (JObject []))
                 = Inr result"
    and m2: "markup_error ex (result_message result) = None"
    by blast
  obtain pre t post where t: "tools ss = pre @ t # post" "JString (name t) = JString n"
      "\<forall>t'\<in>set pre. JString (name t') \<noteq> JString n" "server_name t = sn"
    using f unfolding find_server_Some_iff by blast
  then have "tools ss = pre @ t # post \<and> name t = n \<and> (\<forall>t'\<in>set pre. name t' \<noteq> n) \<and>
      server_name t \<noteq> [] \<and>
      markup_error ex (calling_message n (server_name t)) = None \<and>
      call_tool ex (invoked w) (server_name t) (JString n) (dict_get d ''args'' (JObject []))
        = Inr result \<and>
      markup_error ex (result_message result) = None"
    using sn m1 call m2 by simp
  then show "tool_round_trip ex ss w r n result"
    unfolding tool_round_trip_def using looks d by blast
qed

lemma console_print_fields:
  "generations (console_print out w) = generations w"
  "invoked (console_print out w) = invoked w"
  "events (console_print out w) = events w"
  "sent (console_print out w) = sent w"
  by (simp_all add: console_print_def)

lemma console_print_console:
  "console (console_print out w) = console w @ [out]"
  by (simp add: console_print_def)

lemma log_event_fields:
  "generations (log_event s d w) = generations w"
  "invoked (log_event s d w) = invoked w"
  "events (log_event s d w) = events w @ [(s, d)]"
  "console (log_event s d w) = console w"
  by (simp_all add: log_event_def)

text \<open>What the body of the \<open>try\<close> does after parsing, case by case.\<close>

lemma run_not_object:
  "\<forall>d. v \<noteq> JObject d \<Longrightarrow> \<exists>e. run_tool_call ex ss sys r v w = (Inl e, w)"
  by (cases v) (simp_all add: run_tool_call_def)

lemma run_no_server:
  "find_server (tools ss) (dict_get d ''tool'' JNull) = None \<Longrightarrow>
     run_tool_call ex ss sys r (JObject d) w = (Inr (Some r), w)"
  by (simp add: run_tool_call_def)

lemma run_empty_server:
  "find_server (tools ss) (dict_get d ''tool'' JNull) = Some [] \<Longrightarrow>
     run_tool_call ex ss sys r (JObject d) w = (Inr (Some r), w)"
  by (simp add: run_tool_call_def)

lemma run_first_print_raises:
  assumes "find_server (tools ss) (dict_get d ''tool'' JNull) = Some sn" and "sn \<noteq> []"
      and "dict_get d ''tool'' JNull = JString n"
      and "markup_error ex (calling_message n sn) = Some e"
  shows "run_tool_call ex ss sys r (JObject d) w = (Inl e, w)"
  using assms by (simp add: run_tool_call_def console_print_str_def str_of_def)

lemma run_tool_raises:
  assumes "find_server (tools ss) (dict_get d ''tool'' JNull) = Some sn" and "sn \<noteq> []"
      and "dict_get d ''tool'' JNull = JString n"
      and "markup_error ex (calling_message n sn) = None"
      and "call_tool ex (invoked w) sn (JString n) (dict_get d ''args'' (JObject [])) = Inl e"
      and "run_tool_call ex ss sys r (JObject d) w = (res, w')"
  shows "res = Inl e \<and> generations w' = generations w
    \<and> invoked w' = invoked w @ [(sn, JString n, dict_get d ''args'' (JObject []))]
    \<and> events w' = events w"
  using assms
  by (auto simp: run_tool_call_def console_print_str_def str_of_def console_print_fields Let_def)

lemma run_second_print_raises:
  assumes "find_server (tools ss) (dict_get d ''tool'' JNull) = Some sn" and "sn \<noteq> []"
      and "dict_get d ''tool'' JNull = JString n"
      and "markup_error ex (calling_message n sn) = None"
      and "call_tool ex (invoked w) sn (JString n) (dict_get d ''args'' (JObject []))
             = Inr result"
      and "markup_error ex (result_message result) = Some e"
      and "run_tool_call ex ss sys r (JObject d) w = (res, w')"
  shows "res = Inl e \<and> generations w' = generations w
    \<and> invoked w' = invoked w @ [(sn, JString n, dict_get d ''args'' (JObject []))]
    \<and> events w' = events w"
  using assms
  by (auto simp: run_tool_call_def console_print_str_def str_of_def console_print_fields Let_def)

lemma run_tool_returns:
  assumes server: "find_server (tools ss) (dict_get d ''tool'' JNull) = Some sn" "sn \<noteq> []"
      and tool: "dict_get d ''tool'' JNull = JString n"
      and m1: "markup_error ex (calling_message n sn) = None"
      and call: "call_tool ex (invoked w) sn (JString n) (dict_get d ''args'' (JObject []))
                   = Inr result"
      and m2: "markup_error ex (result_message result) = None"
      and run: "run_tool_call ex ss sys r (JObject d) w = (res, w')"
  shows "res = Inr (fst (ai_generate_response ex ss (follow_up_prompt n result) sys w))
    \<and> generations w' = generations w @ [(follow_up_prompt n result, sys, provider ss, model ss)]
    \<and> invoked w' = invoked w @ [(sn, JString n, dict_get d ''args'' (JObject []))]
    \<and> events w' = events w"
proof -
  let ?w1 = "console_print (Print (calling_message n sn)) w"
  let ?w2 = "?w1\<lparr>invoked := invoked ?w1 @ [(sn, JString n, dict_get d ''args'' (JObject []))]\<rparr>"
  let ?w3 = "console_print (Print (result_message result)) ?w2"
  obtain r2 w4 where gen: "ai_generate_response ex ss (follow_up_prompt n result) sys ?w3 = (r2, w4)"
    by force
  have "run_tool_call ex ss sys r (JObject d) w = (Inr r2, w4)"
    using server tool m1 call m2 gen
    by (simp add: run_tool_call_def Let_def str_of_def console_print_str_def console_print_fields)
  then have res: "res = Inr r2" and w': "w' = w4" using run by simp_all
  have w3: "generations ?w3 = generations w"
      "invoked ?w3 = invoked w @ [(sn, JString n, dict_get d ''args'' (JObject []))]"
      "events ?w3 = events w"
    by (simp_all add: console_print_fields)
  have "res = Inr (fst (ai_generate_response ex ss (follow_up_prompt n result) sys ?w3))"
    using res gen by simp
  moreover have "sent ?w3 = sent w"
    by (simp add: console_print_fields)
  then have "fst (ai_generate_response ex ss (follow_up_prompt n result) sys ?w3)
      = fst (ai_generate_response ex ss (follow_up_prompt n result) sys w)"
    by (rule ai_generate_response_returned)
  ultimately have "res = Inr (fst (ai_generate_response ex ss (follow_up_prompt n result) sys w))"
    by (simp only:)
  then show ?thesis
    using ai_generate_response_effects [OF gen] w3 w' by simp
qed

lemma tool_round_trip_invoked:
  "invoked w1 = invoked w \<Longrightarrow>
     tool_round_trip ex ss w1 r n result = tool_round_trip ex ss w r n result"
  by (simp add: tool_round_trip_def)

text \<open>
  The body of the \<open>try\<close>: \<open>generate_response\<close> is called in it exactly when there is a
  tool round trip, and at most one tool is invoked.
\<close>

lemma try_tool_call_round_trip:
  assumes looks: "looks_like_tool_call r"
      and body: "try_tool_call ex ss sys r w = (res, w')"
  shows "((\<exists>n result. tool_round_trip ex ss w r n result) \<longrightarrow>
            (\<exists>n result. tool_round_trip ex ss w r n result \<and>
               generations w' = generations w
                  @ [(follow_up_prompt n result, sys, provider ss, model ss)] \<and>
               res = Inr (fst (ai_generate_response ex ss (follow_up_prompt n result) sys w))))
       \<and> (\<not> (\<exists>n result. tool_round_trip ex ss w r n result) \<longrightarrow>
            generations w' = generations w)
       \<and> length (invoked w') \<le> length (invoked w) + 1
       \<and> events w' = events w"
proof -
  let ?trip = "\<exists>n result. tool_round_trip ex ss w r n result"
  have same: ?thesis if "\<not> ?trip" and "w' = w"
    using that by simp
  show ?thesis
  proof (cases "json_loads ex r")
    case (Inl e)
    then have "\<not> ?trip" by (simp add: tool_round_trip_def)
    moreover have "w' = w" using body Inl by (simp add: try_tool_call_def)
    ultimately show ?thesis by (rule same)
  next
    case (Inr v)
    then have run: "run_tool_call ex ss sys r v w = (res, w')"
      using body by (simp add: try_tool_call_def)
    show ?thesis
    proof (cases "\<exists>d. v = JObject d")
      case False
      then have "\<not> ?trip" using Inr by (auto simp: tool_round_trip_def)
      moreover have "w' = w" using run_not_object [of v ex ss sys r w] False run by auto
      ultimately show ?thesis by (rule same)
    next
      case True
      then obtain d where v: "v = JObject d" by blast
      let ?tn = "dict_get d ''tool'' JNull"
      let ?ta = "dict_get d ''args'' (JObject [])"
      show ?thesis
      proof (cases "find_server (tools ss) ?tn")
        case None
        then have "\<not> ?trip" using Inr v by (auto simp: tool_round_trip_iff)
        moreover have "w' = w" using run v None by (simp add: run_no_server)
        ultimately show ?thesis by (rule same)
      next
        case (Some sn)
        show ?thesis
        proof (cases "sn = []")
          case True
          then have "\<not> ?trip" using Inr v Some by (auto simp: tool_round_trip_iff)
          moreover have "w' = w" using run v Some True by (simp add: run_empty_server)
          ultimately show ?thesis by (rule same)
        next
          case sn: False
          obtain n where n: "?tn = JString n"
            using find_server_Some_string [OF Some] by blast
          show ?thesis
          proof (cases "markup_error ex (calling_message n sn)")
            case (Some e1)
            then have "\<not> ?trip"
              using Inr v \<open>find_server (tools ss) ?tn = Some sn\<close> n
              by (auto simp: tool_round_trip_iff)
            moreover have "w' = w"
              using run v
                run_first_print_raises [OF \<open>find_server (tools ss) ?tn = Some sn\<close> sn n Some]
              by simp
            ultimately show ?thesis by (rule same)
          next
            case m1: None
            note server = \<open>find_server (tools ss) ?tn = Some sn\<close>
            show ?thesis
            proof (cases "call_tool ex (invoked w) sn (JString n) ?ta")
              case (Inl e)
              have no: "\<not> ?trip"
                using Inr v server n Inl by (auto simp: tool_round_trip_iff)
              have "res = Inl e \<and> generations w' = generations w
                  \<and> invoked w' = invoked w @ [(sn, JString n, ?ta)] \<and> events w' = events w"
                using run v by (intro run_tool_raises [OF server sn n m1 Inl]) simp
              then show ?thesis using no by simp
            next
              case call: (Inr result)
              show ?thesis
              proof (cases "markup_error ex (result_message result)")
                case (Some e2)
                have no: "\<not> ?trip"
                  using Inr v server n call Some by (auto simp: tool_round_trip_iff)
                have "res = Inl e2 \<and> generations w' = generations w
                    \<and> invoked w' = invoked w @ [(sn, JString n, ?ta)] \<and> events w' = events w"
                  using run v by (intro run_second_print_raises [OF server sn n m1 call Some]) simp
                then show ?thesis using no by simp
              next
                case m2: None
                have trip: "tool_round_trip ex ss w r n result"
                  using looks Inr v server sn n m1 call m2 by (auto simp: tool_round_trip_iff)
                have "res = Inr (fst (ai_generate_response ex ss (follow_up_prompt n result) sys w))
                    \<and> generations w' = generations w
                        @ [(follow_up_prompt n result, sys, provider ss, model ss)]
                    \<and> invoked w' = invoked w @ [(sn, JString n, ?ta)]
                    \<and> events w' = events w"
                  using run v by (intro run_tool_returns [OF server sn n m1 call m2]) simp
                then show ?thesis using trip by auto
              qed
            qed
          qed
        qed
      qed
    qed
  qed
qed

text \<open>
  The handler changes the outcome of the body only when a \<open>JSONDecodeError\<close> leaves it.
\<close>

lemma check_not_candidate:
  "\<not> looks_like_tool_call r \<Longrightarrow> check_tool_call ex ss sys r w = (Inr (Some r), w)"
  by (simp add: check_tool_call_def)

lemma check_after_try:
  assumes "looks_like_tool_call r" and "try_tool_call ex ss sys r w = (b, w')"
  shows "check_tool_call ex ss sys r w =
           (case b of
              Inl (JSONDecodeError detail) \<Rightarrow> Inr (Some r)
            | Inl (Exception detail) \<Rightarrow> Inl (Exception detail)
            | Inr x \<Rightarrow> Inr x, w')"
  using assms by (auto simp: check_tool_call_def split: sum.splits exn.splits)

lemma check_tool_call_round_trip:
  assumes chk: "check_tool_call ex ss sys r w = (res, w')"
  shows "((\<exists>n result. tool_round_trip ex ss w r n result) \<longrightarrow>
            (\<exists>n result. tool_round_trip ex ss w r n result \<and>
               generations w' = generations w
                  @ [(follow_up_prompt n result, sys, provider ss, model ss)] \<and>
               res = Inr (fst (ai_generate_response ex ss (follow_up_prompt n result) sys w))))
       \<and> (\<not> (\<exists>n result. tool_round_trip ex ss w r n result) \<longrightarrow>
            generations w' = generations w)
       \<and> length (invoked w') \<le> length (invoked w) + 1
       \<and> events w' = events w"
proof (cases "looks_like_tool_call r")
  case False
  then have "\<not> (\<exists>n result. tool_round_trip ex ss w r n result)"
    by (simp add: tool_round_trip_def)
  moreover have "w' = w" using chk False by (simp add: check_not_candidate)
  ultimately show ?thesis by simp
next
  case True
  obtain b wb where body: "try_tool_call ex ss sys r w = (b, wb)" by force
  have after: "check_tool_call ex ss sys r w =
           (case b of
              Inl (JSONDecodeError detail) \<Rightarrow> Inr (Some r)
            | Inl (Exception detail) \<Rightarrow> Inl (Exception detail)
            | Inr x \<Rightarrow> Inr x, wb)"
    by (rule check_after_try [OF True body])
  then have w': "w' = wb" using chk by simp
  have kept: "res = Inr x" if "b = Inr x" for x
    using after chk that by simp
  show ?thesis
    using try_tool_call_round_trip [OF True body] w' kept by auto
qed

lemma respond_after_first:
  "ai_generate_response ex ss u (build_context ss w u) w = (Some r, w1) \<Longrightarrow>
     respond ex ss w u = check_tool_call ex ss (build_context ss w u) r w1"
  by (simp add: respond_def Let_def)

lemma respond_after_None:
  "ai_generate_response ex ss u (build_context ss w u) w = (None, w1) \<Longrightarrow>
     respond ex ss w u = (Inl none_has_no_strip, w1)"
  by (simp add: respond_def Let_def)

lemma respond_round_trip:
  assumes first: "ai_generate_response ex ss u (build_context ss w u) w = (reply, w1)"
      and fin: "respond ex ss w u = (res, w')"
  shows "((\<exists>r n result. reply = Some r \<and> tool_round_trip ex ss w r n result) \<longrightarrow>
            (\<exists>r n result. reply = Some r \<and> tool_round_trip ex ss w r n result \<and>
               generations w' = generations w
                  @ [(u, build_context ss w u, provider ss, model ss),
                     (follow_up_prompt n result, build_context ss w u, provider ss, model ss)] \<and>
               res = Inr (fst (ai_generate_response ex ss
                                 (follow_up_prompt n result) (build_context ss w u) w1))))
       \<and> (\<not> (\<exists>r n result. reply = Some r \<and> tool_round_trip ex ss w r n result) \<longrightarrow>
            generations w' = generations w @ [(u, build_context ss w u, provider ss, model ss)])
       \<and> length (invoked w') \<le> length (invoked w) + 1
       \<and> events w' = events w"
proof (cases reply)
  case None
  then have "w' = w1"
    using first fin by (simp add: respond_after_None)
  then show ?thesis
    using None ai_generate_response_effects [OF first] by simp
next
  case (Some r)
  have chk: "check_tool_call ex ss (build_context ss w u) r w1 = (res, w')"
    using first fin Some by (simp add: respond_after_first)
  have trip: "tool_round_trip ex ss w1 r n result = tool_round_trip ex ss w r n result"
    for n result
    using ai_generate_response_effects(2) [OF first] by (rule tool_round_trip_invoked)
  show ?thesis
    using check_tool_call_round_trip [OF chk] ai_generate_response_effects [OF first] Some
    by (simp add: trip)
qed

lemma turn_Completed_iff:
  "turn ex ss w u = Completed w' \<longleftrightarrow>
     lower (text_case ss) u \<notin> {''exit'', ''quit''} \<and>
     (\<exists>r w2. respond ex ss w u = (Inr (Some r), w2) \<and>
        w' = log_event (story_id ss) (''AI: '' @ take 50 r @ ''...'')
               (log_event (story_id ss) (''User: '' @ u) (console_print (Markdown r) w2)))"
  by (cases "respond ex ss w u") (auto simp: turn_def split: sum.splits option.splits)


lemma build_context_nonempty: "build_context ss w u \<noteq> []"
  by (simp add: build_context_def system_instruction_def nl_def Let_def)

lemmas gateway_eval =
  ai_generate_response_def generate_response_def dispatch_def generate_openai_def first_def
  full_prompt_def build_context_nonempty

lemmas demo_eval =
  demo_collab_def scripted_def demo_session_def dice_tool_def world0_def setup_clients_def
  demo_env_def

text \<open>
  Claim C3. A turn that completes appends exactly two events to the story of the session,
  in this order: \<open>User: \<close> followed by the input as typed, then \<open>AI: \<close> followed
  by the first 50 characters of the final response (the one displayed) and \<open>...\<close>.
\<close>
theorem two_events_per_turn:
  assumes "turn ex ss w u = Completed w'"
  shows "\<exists>r w2. respond ex ss w u = (Inr (Some r), w2) \<and> last (console w') = Markdown r \<and>
           events w' = events w @ [(story_id ss, ''User: '' @ u),
                                   (story_id ss, ''AI: '' @ take 50 r @ ''...'')]"
proof -
  obtain r w2 where r: "respond ex ss w u = (Inr (Some r), w2)"
    and w': "w' = log_event (story_id ss) (''AI: '' @ take 50 r @ ''...'')
               (log_event (story_id ss) (''User: '' @ u) (console_print (Markdown r) w2))"
    using assms unfolding turn_Completed_iff by blast
  obtain r1 w1 where first: "ai_generate_response ex ss u (build_context ss w u) w = (r1, w1)"
    by force
  have "events w2 = events w"
    using respond_round_trip [OF first r] by simp
  then show ?thesis
    using r w' by (simp add: log_event_fields console_print_fields console_print_console)
qed

theorem two_events_per_turn_witness:
  "turn (demo_collab [Some door_reply] [] (Inl (Exception ''unused''))) (demo_session [dice_tool])
        world0 ''I open the door''
     = Completed
         \<lparr> sent = [ChatCompletionsCreate ''gpt-4o''
                     [Message ''system''
                        (build_context (demo_session [dice_tool]) world0 ''I open the door''),
                      Message ''user'' ''I open the door'']],
           generations = [(''I open the door'',
                           build_context (demo_session [dice_tool]) world0 ''I open the door'',
                           ''openai'', ''gpt-4o'')],
           invoked = [],
           console = [Markdown door_reply],
           events = [(1, ''User: I open the door''),
                     (1, ''AI: The door creaks open and a cold wind rushes past y...'')] \<rparr>"
proof -
  let ?ex = "demo_collab [Some door_reply] [] (Inl (Exception ''unused''))"
  let ?ss = "demo_session [dice_tool]"
  let ?c = "build_context ?ss world0 ''I open the door''"
  let ?w1 = "\<lparr> sent = [ChatCompletionsCreate ''gpt-4o''
                     [Message ''system'' ?c, Message ''user'' ''I open the door'']],
               generations = [(''I open the door'', ?c, ''openai'', ''gpt-4o'')],
               invoked = [], console = [], events = [] \<rparr>"
  have first: "ai_generate_response ?ex ?ss ''I open the door'' ?c world0 = (Some door_reply, ?w1)"
    by (simp add: gateway_eval demo_eval)
  have "\<not> looks_like_tool_call door_reply"
    by (simp add: looks_like_tool_call_def strip_def isspace_def startswith_def door_reply_def)
  then have "respond ?ex ?ss world0 ''I open the door'' = (Inr (Some door_reply), ?w1)"
    using first by (simp add: respond_after_first check_not_candidate)
  moreover have "lower (text_case ?ss) ''I open the door'' \<notin> {''exit'', ''quit''}"
    by (simp add: demo_session_def py_case_def lower_char_def)
  ultimately have completed: "turn ?ex ?ss world0 ''I open the door'' = Completed
      (log_event (story_id ?ss) (''AI: '' @ take 50 door_reply @ ''...'')
         (log_event (story_id ?ss) (''User: '' @ ''I open the door'')
            (console_print (Markdown door_reply) ?w1)))"
    by (simp add: turn_def)
  show ?thesis
    using two_events_per_turn [OF completed] completed
    by (simp add: log_event_def console_print_def demo_session_def door_reply_def)
qed

text \<open>
  A reply looks like a tool call exactly when some white space followed by \<open>{\<close> begins
  it and \<open>"tool"\<close> occurs in it; and when the parser leaves such a reply with a
  \<open>JSONDecodeError\<close>, the turn completes with the whole reply as narration.
\<close>

lemma looks_like_tool_call_iff:
  "looks_like_tool_call r \<longleftrightarrow>
      (\<exists>ws rest. r = ws @ ''{'' @ rest \<and> (\<forall>c\<in>set ws. isspace c)) \<and>
      (\<exists>pre post. r = pre @ ''\"tool\"'' @ post)"
  unfolding looks_like_tool_call_def strip_startswith_brace contains_iff ..

lemma json_decode_error_is_narration:
  assumes bad: "json_loads ex r = Inl (JSONDecodeError detail)"
      and first: "ai_generate_response ex ss u (build_context ss w u) w = (Some r, w1)"
      and live: "lower (text_case ss) u \<notin> {''exit'', ''quit''}"
  shows "turn ex ss w u =
          Completed (log_event (story_id ss) (''AI: '' @ take 50 r @ ''...'')
                      (log_event (story_id ss) (''User: '' @ u)
                        (console_print (Markdown r) w1)))"
proof -
  have "check_tool_call ex ss (build_context ss w u) r w1 = (Inr (Some r), w1)"
    using bad by (simp add: check_tool_call_def try_tool_call_def)
  then have "respond ex ss w u = (Inr (Some r), w1)"
    using first by (simp add: respond_after_first)
  then show ?thesis using live by (simp add: turn_def)
qed

lemma deep_reply_looks_like_tool_call: "looks_like_tool_call deep_reply"
proof -
  have "deep_reply = [] @ ''{'' @ (''\"tool\":'' @ replicate 100000 (CHR ''[''))"
    unfolding deep_reply_def by (simp only: append.simps)
  moreover have "\<forall>c\<in>set ([] :: string). isspace c" by simp
  moreover have "deep_reply = ''{'' @ ''\"tool\"'' @ ('':'' @ replicate 100000 (CHR ''[''))"
    unfolding deep_reply_def by (simp only: append.simps)
  ultimately show ?thesis
    unfolding looks_like_tool_call_iff by blast
qed

text \<open>
  Claim C1, at an input where the code departs from it. The backend replies with
  \<open>{"tool":\<close> followed by a hundred thousand \<open>[\<close>. The reply looks like a tool call
  and fails to parse, so the claim has it treated as narration with no exception left
  uncaught. \<open>json.loads\<close> leaves it with a \<open>RecursionError\<close>, which
  \<open>except json.JSONDecodeError\<close> does not catch: the exception leaves the turn, nothing
  is displayed and nothing is persisted.
\<close>
theorem parse_failure_leaves_turn:
  "looks_like_tool_call deep_reply \<and>
   json_loads (demo_collab [Some deep_reply] [(deep_reply, Inl recursion_error)] (Inr ''unused''))
       deep_reply = Inl recursion_error \<and>
   turn (demo_collab [Some deep_reply] [(deep_reply, Inl recursion_error)] (Inr ''unused''))
        (demo_session [dice_tool]) world0 ''I roll the dice''
     = Raised recursion_error
         \<lparr> sent = [ChatCompletionsCreate ''gpt-4o''
                     [Message ''system''
                        (build_context (demo_session [dice_tool]) world0 ''I roll the dice''),
                      Message ''user'' ''I roll the dice'']],
           generations = [(''I roll the dice'',
                           build_context (demo_session [dice_tool]) world0 ''I roll the dice'',
                           ''openai'', ''gpt-4o'')],
           invoked = [], console = [], events = [] \<rparr>"
proof -
  let ?ex = "demo_collab [Some deep_reply] [(deep_reply, Inl recursion_error)] (Inr ''unused'')"
  let ?ss = "demo_session [dice_tool]"
  let ?c = "build_context ?ss world0 ''I roll the dice''"
  let ?w1 = "\<lparr> sent = [ChatCompletionsCreate ''gpt-4o''
                     [Message ''system'' ?c, Message ''user'' ''I roll the dice'']],
               generations = [(''I roll the dice'', ?c, ''openai'', ''gpt-4o'')],
               invoked = [], console = [], events = [] \<rparr>"
  have first: "ai_generate_response ?ex ?ss ''I roll the dice'' ?c world0 = (Some deep_reply, ?w1)"
    by (simp add: gateway_eval demo_eval)
  have bad: "json_loads ?ex deep_reply = Inl recursion_error"
    by (simp add: demo_collab_def)
  have "try_tool_call ?ex ?ss ?c deep_reply ?w1 = (Inl recursion_error, ?w1)"
    using bad by (simp add: try_tool_call_def)
  then have "check_tool_call ?ex ?ss ?c deep_reply ?w1 = (Inl recursion_error, ?w1)"
    using deep_reply_looks_like_tool_call
    by (simp add: check_tool_call_def recursion_error_def)
  then have "respond ?ex ?ss world0 ''I roll the dice'' = (Inl recursion_error, ?w1)"
    using first by (simp add: respond_after_first)
  moreover have "lower (text_case ?ss) ''I roll the dice'' \<notin> {''exit'', ''quit''}"
    by (simp add: demo_session_def py_case_def lower_char_def)
  ultimately have raised: "turn ?ex ?ss world0 ''I roll the dice'' = Raised recursion_error ?w1"
    by (simp add: turn_def)
  show ?thesis
    by (rule conjI [OF deep_reply_looks_like_tool_call conjI [OF bad raised]])
qed

text \<open>
  Claim C7, at an input where the code departs from it. OpenAI is the provider and the
  first choice of its response has the content \<open>None\<close>. The claim has every value that
  \<open>generate_response\<close> returns be a string. \<open>_generate_openai\<close> returns the content
  as it is, no exception is raised for \<open>except Exception\<close> to turn into a string, and
  \<open>generate_response\<close> returns \<open>None\<close>; in the loop \<open>response.strip()\<close> then raises
  \<open>AttributeError\<close>, which leaves the turn.
\<close>
theorem none_content_is_returned:
  "generate_response (scripted [None]) demo_env (setup_clients demo_env) []
       ''Hello'' ''Be brief'' ''openai'' ''gpt-4o''
     = (None, [ChatCompletionsCreate ''gpt-4o''
                 [Message ''system'' ''Be brief'', Message ''user'' ''Hello'']]) \<and>
   turn (demo_collab [None] [] (Inr ''unused'')) (demo_session []) world0 ''Hello''
     = Raised none_has_no_strip
         \<lparr> sent = [ChatCompletionsCreate ''gpt-4o''
                     [Message ''system'' (build_context (demo_session []) world0 ''Hello''),
                      Message ''user'' ''Hello'']],
           generations = [(''Hello'', build_context (demo_session []) world0 ''Hello'',
                           ''openai'', ''gpt-4o'')],
           invoked = [], console = [], events = [] \<rparr>"
proof -
  let ?ex = "demo_collab [None] [] (Inr ''unused'')"
  let ?ss = "demo_session []"
  let ?c = "build_context ?ss world0 ''Hello''"
  let ?w1 = "\<lparr> sent = [ChatCompletionsCreate ''gpt-4o''
                     [Message ''system'' ?c, Message ''user'' ''Hello'']],
               generations = [(''Hello'', ?c, ''openai'', ''gpt-4o'')],
               invoked = [], console = [], events = [] \<rparr>"
  have returned: "generate_response (scripted [None]) demo_env (setup_clients demo_env) []
       ''Hello'' ''Be brief'' ''openai'' ''gpt-4o''
     = (None, [ChatCompletionsCreate ''gpt-4o''
                 [Message ''system'' ''Be brief'', Message ''user'' ''Hello'']])"
    by (simp add: generate_response_def dispatch_def generate_openai_def first_def
          scripted_def setup_clients_def demo_env_def)
  have first: "ai_generate_response ?ex ?ss ''Hello'' ?c world0 = (None, ?w1)"
    by (simp add: gateway_eval demo_eval)
  then have "respond ?ex ?ss world0 ''Hello'' = (Inl none_has_no_strip, ?w1)"
    by (simp add: respond_after_None)
  moreover have "lower (text_case ?ss) ''Hello'' \<notin> {''exit'', ''quit''}"
    by (simp add: demo_session_def py_case_def lower_char_def)
  ultimately have raised: "turn ?ex ?ss world0 ''Hello'' = Raised none_has_no_strip ?w1"
    by (simp add: turn_def)
  show ?thesis
    by (rule conjI [OF returned raised])
qed

text \<open>
  Claim C9, as amended. When \<open>json.loads\<close> parses the reply to an object whose \<open>tool\<close>
  field is a string that names no discovered tool (there may be none), the reply itself
  is the final response: no tool is invoked, \<open>generate_response\<close> is called once, the
  reply is displayed as it is, and it is persisted as every response is, cut to its first
  50 characters and followed by \<open>...\<close>.
\<close>
theorem unknown_tool_is_narration:
  assumes first: "ai_generate_response ex ss u (build_context ss w u) w = (Some r, w1)"
      and json: "json_loads ex r = Inr (JObject d)"
      and tool: "dict_get d ''tool'' JNull = JString x"
      and unknown: "\<forall>t\<in>set (tools ss). name t \<noteq> x"
      and live: "lower (text_case ss) u \<notin> {''exit'', ''quit''}"
  shows "respond ex ss w u = (Inr (Some r), w1)
    \<and> invoked w1 = invoked w
    \<and> generations w1 = generations w @ [(u, build_context ss w u, provider ss, model ss)]
    \<and> turn ex ss w u =
        Completed (log_event (story_id ss) (''AI: '' @ take 50 r @ ''...'')
                    (log_event (story_id ss) (''User: '' @ u)
                      (console_print (Markdown r) w1)))"
proof -
  have "find_server (tools ss) (dict_get d ''tool'' JNull) = None"
    using tool unknown by (simp add: find_server_None_iff)
  then have "run_tool_call ex ss (build_context ss w u) r (JObject d) w1 = (Inr (Some r), w1)"
    by (rule run_no_server)
  then have "try_tool_call ex ss (build_context ss w u) r w1 = (Inr (Some r), w1)"
    using json by (simp add: try_tool_call_def)
  then have "check_tool_call ex ss (build_context ss w u) r w1 = (Inr (Some r), w1)"
    by (cases "looks_like_tool_call r") (simp_all add: check_tool_call_def)
  then have resp: "respond ex ss w u = (Inr (Some r), w1)"
    using first by (simp add: respond_after_first)
  then show ?thesis
    using live ai_generate_response_effects [OF first] by (simp add: turn_def)
qed

theorem unknown_tool_is_narration_witness:
  "json_loads (demo_collab [Some spell_reply] [(spell_reply, Inr spell_call)] (Inr ''unused''))
       spell_reply = Inr spell_call \<and>
   turn (demo_collab [Some spell_reply] [(spell_reply, Inr spell_call)] (Inr ''unused''))
        (demo_session [dice_tool]) world0 ''I cast a spell''
     = Completed
         \<lparr> sent = [ChatCompletionsCreate ''gpt-4o''
                     [Message ''system''
                        (build_context (demo_session [dice_tool]) world0 ''I cast a spell''),
                      Message ''user'' ''I cast a spell'']],
           generations = [(''I cast a spell'',
                           build_context (demo_session [dice_tool]) world0 ''I cast a spell'',
                           ''openai'', ''gpt-4o'')],
           invoked = [],
           console = [Markdown spell_reply],
           events = [(1, ''User: I cast a spell''),
                     (1, ''AI: '' @ take 50 spell_reply @ ''...'')] \<rparr>"
proof -
  let ?ex = "demo_collab [Some spell_reply] [(spell_reply, Inr spell_call)] (Inr ''unused'')"
  let ?ss = "demo_session [dice_tool]"
  let ?c = "build_context ?ss world0 ''I cast a spell''"
  let ?w1 = "\<lparr> sent = [ChatCompletionsCreate ''gpt-4o''
                     [Message ''system'' ?c, Message ''user'' ''I cast a spell'']],
               generations = [(''I cast a spell'', ?c, ''openai'', ''gpt-4o'')],
               invoked = [], console = [], events = [] \<rparr>"
  let ?d = "[(''tool'', JString ''cast_spell''),
             (''args'', JObject [(''spell'', JString ''fireball''), (''level'', JNumber ''3'')])]"
  have first: "ai_generate_response ?ex ?ss ''I cast a spell'' ?c world0 = (Some spell_reply, ?w1)"
    by (simp add: gateway_eval demo_eval)
  have json: "json_loads ?ex spell_reply = Inr (JObject ?d)"
    by (simp add: demo_collab_def spell_call_def)
  have tool: "dict_get ?d ''tool'' JNull = JString ''cast_spell''"
    by (simp add: dict_get_def)
  have unknown: "\<forall>t\<in>set (tools ?ss). name t \<noteq> ''cast_spell''"
    by (simp add: demo_session_def dice_tool_def)
  have live: "lower (text_case ?ss) ''I cast a spell'' \<notin> {''exit'', ''quit''}"
    by (simp add: demo_session_def py_case_def lower_char_def)
  show ?thesis
    using unknown_tool_is_narration [OF first json tool unknown live] json
    by (simp add: log_event_def console_print_def demo_session_def spell_call_def)
qed

text \<open>
  Claim C9 as stated fails where it says the text is persisted verbatim: with no tool
  discovered and a reply of 65 characters, the event that is logged holds the first 50
  characters and \<open>...\<close>, and the reply does not occur in it.
\<close>

theorem unknown_tool_is_narration_counterexample:
  "turn (demo_collab [Some spell_reply] [(spell_reply, Inr spell_call)] (Inr ''unused''))
        (demo_session []) world0 ''I cast a spell''
     = Completed
         \<lparr> sent = [ChatCompletionsCreate ''gpt-4o''
                     [Message ''system''
                        (build_context (demo_session []) world0 ''I cast a spell''),
                      Message ''user'' ''I cast a spell'']],
           generations = [(''I cast a spell'',
                           build_context (demo_session []) world0 ''I cast a spell'',
                           ''openai'', ''gpt-4o'')],
           invoked = [],
           console = [Markdown spell_reply],
           events = [(1, ''User: I cast a spell''),
                     (1, ''AI: {\"tool\": \"cast_spell\", \"args\": {\"spell\": \"fireball...'')] \<rparr>
   \<and> \<not> contains spell_reply
         ''AI: {\"tool\": \"cast_spell\", \"args\": {\"spell\": \"fireball...''"
proof -
  let ?ex = "demo_collab [Some spell_reply] [(spell_reply, Inr spell_call)] (Inr ''unused'')"
  let ?ss = "demo_session []"
  let ?c = "build_context ?ss world0 ''I cast a spell''"
  let ?w1 = "\<lparr> sent = [ChatCompletionsCreate ''gpt-4o''
                     [Message ''system'' ?c, Message ''user'' ''I cast a spell'']],
               generations = [(''I cast a spell'', ?c, ''openai'', ''gpt-4o'')],
               invoked = [], console = [], events = [] \<rparr>"
  have first: "ai_generate_response ?ex ?ss ''I cast a spell'' ?c world0 = (Some spell_reply, ?w1)"
    by (simp add: gateway_eval demo_eval)
  have "run_tool_call ?ex ?ss ?c spell_reply spell_call ?w1 = (Inr (Some spell_reply), ?w1)"
    by (simp add: run_tool_call_def spell_call_def dict_get_def demo_session_def)
  moreover have "json_loads ?ex spell_reply = Inr spell_call"
    by (simp add: demo_collab_def)
  ultimately have "try_tool_call ?ex ?ss ?c spell_reply ?w1 = (Inr (Some spell_reply), ?w1)"
    by (simp add: try_tool_call_def)
  then have "check_tool_call ?ex ?ss ?c spell_reply ?w1 = (Inr (Some spell_reply), ?w1)"
    by (cases "looks_like_tool_call spell_reply") (simp_all add: check_tool_call_def)
  then have "respond ?ex ?ss world0 ''I cast a spell'' = (Inr (Some spell_reply), ?w1)"
    using first by (simp add: respond_after_first)
  moreover have "lower (text_case ?ss) ''I cast a spell'' \<notin> {''exit'', ''quit''}"
    by (simp add: demo_session_def py_case_def lower_char_def)
  ultimately have completed: "turn ?ex ?ss world0 ''I cast a spell'' = Completed
      (log_event (story_id ?ss) (''AI: '' @ take 50 spell_reply @ ''...'')
         (log_event (story_id ?ss) (''User: '' @ ''I cast a spell'')
            (console_print (Markdown spell_reply) ?w1)))"
    by (simp add: turn_def)
  have shape: "log_event (story_id ?ss) (''AI: '' @ take 50 spell_reply @ ''...'')
         (log_event (story_id ?ss) (''User: '' @ ''I cast a spell'')
            (console_print (Markdown spell_reply) ?w1)) =
         \<lparr> sent = [ChatCompletionsCreate ''gpt-4o''
                     [Message ''system'' ?c, Message ''user'' ''I cast a spell'']],
           generations = [(''I cast a spell'', ?c, ''openai'', ''gpt-4o'')],
           invoked = [],
           console = [Markdown spell_reply],
           events = [(1, ''User: I cast a spell''),
                     (1, ''AI: {\"tool\": \"cast_spell\", \"args\": {\"spell\": \"fireball...'')] \<rparr>"
    by (simp add: log_event_def console_print_def demo_session_def spell_reply_def)
  have persisted: "turn ?ex ?ss world0 ''I cast a spell'' = Completed
         \<lparr> sent = [ChatCompletionsCreate ''gpt-4o''
                     [Message ''system'' ?c, Message ''user'' ''I cast a spell'']],
           generations = [(''I cast a spell'', ?c, ''openai'', ''gpt-4o'')],
           invoked = [],
           console = [Markdown spell_reply],
           events = [(1, ''User: I cast a spell''),
                     (1, ''AI: {\"tool\": \"cast_spell\", \"args\": {\"spell\": \"fireball...'')] \<rparr>"
    using completed unfolding shape .
  have cut: "\<not> contains spell_reply
         ''AI: {\"tool\": \"cast_spell\", \"args\": {\"spell\": \"fireball...''"
    by (simp add: spell_reply_def startswith_def)
  show ?thesis
    by (rule conjI [OF persisted cut])
qed





end
